theory Spec2Isabelle
  imports Main
begin

section \<open>The Bitbucket API wrapper (\<^verbatim>\<open>bitbucket/api.py\<close>)\<close>

text \<open>
  The module is a thin client over \<^verbatim>\<open>urllib\<close>: a class \<^verbatim>\<open>BitBucket\<close> holding five fields,
  a class \<^verbatim>\<open>User\<close> holding a reference to a \<^verbatim>\<open>BitBucket\<close> and a username, a decorator
  \<^verbatim>\<open>requires_authentication\<close> and the function \<^verbatim>\<open>to_datetime\<close>.

  Conventions of the embedding.
  \<^item> Python text (\<^verbatim>\<open>str\<close>) and byte strings are \<^typ>\<open>string\<close>; a character below 128 is the
    ASCII character, and text outside ASCII stands for its UTF-8 bytes. Truth of a
    \<^verbatim>\<open>str\<close> in a condition is being non-empty.
  \<^item> \<^verbatim>\<open>BitBucket\<close> objects live in a store, addressed by references, so that an assignment
    to a field would be visible; \<^verbatim>\<open>User\<close> objects hold such a reference in \<^verbatim>\<open>bb\<close>.
  \<^item> What a call prints and what it hands to \<^verbatim>\<open>urlopen\<close> is recorded in the state.
  \<^item> The libraries the module calls (\<^verbatim>\<open>oauthlib\<close>, \<^verbatim>\<open>urlopen\<close>, \<^verbatim>\<open>json\<close>, \<^verbatim>\<open>urlencode\<close>, the
    UTF-8 decoder) are parameters, collected in an environment record; an exception
    raised inside one of them is propagated as \<open>Propagated\<close>, apart from the exceptions
    the module raises itself.
  \<^item> The constructor of \<^verbatim>\<open>urllib.request.Request\<close> (Python 3, the module's first import) is
    written out: it unwraps the URL, splits the fragment off, raises \<^verbatim>\<open>ValueError\<close> for a
    text with no scheme, and capitalises the header names. So are \<^verbatim>\<open>base64.b64encode\<close>,
    and \<^verbatim>\<open>time.strptime\<close> and \<^verbatim>\<open>datetime.datetime\<close> as far as \<^verbatim>\<open>to_datetime\<close> reaches them.
\<close>

subsection \<open>Values, exceptions, requests\<close>

text \<open>Decoded JSON, as \<^verbatim>\<open>json.loads\<close> returns it (a \<^verbatim>\<open>dict\<close> as its list of items).\<close>

datatype json =
    JNull
  | JBool bool
  | JNumber int
  | JString string
  | JArray "json list"
  | JObject "(string \<times> json) list"

text \<open>
  The exceptions a call can end with. \<open>AuthenticationRequired\<close> is the module's own class;
  \<open>PyException\<close> is Python's plain \<^verbatim>\<open>Exception\<close> (raised by \<^verbatim>\<open>User.get_repos\<close>),
  \<open>SystemExit\<close> is what \<^verbatim>\<open>sys.exit\<close> raises, \<open>AttributeError\<close>, \<open>KeyError\<close>, \<open>TypeError\<close> and
  \<open>ValueError\<close> are raised by the interpreter, by the constructor of a request and by the
  \<^verbatim>\<open>datetime\<close> and \<^verbatim>\<open>time\<close> modules.
\<close>

datatype exn =
    AuthenticationRequired string
  | PyException string
  | SystemExit int
  | AttributeError string
  | KeyError string
  | TypeError string
  | ValueError string
  | Propagated string

text \<open>
  A \<^verbatim>\<open>urllib.request.Request\<close> object, by the attributes that the module and the claims
  observe: \<^verbatim>\<open>_full_url\<close> and \<^verbatim>\<open>fragment\<close> (set by the setter of \<^verbatim>\<open>full_url\<close>), \<^verbatim>\<open>data\<close>,
  \<^verbatim>\<open>headers\<close>, \<^verbatim>\<open>origin_req_host\<close>, and the instance attribute \<^verbatim>\<open>get_method\<close>, which is absent
  unless assigned. The attributes \<^verbatim>\<open>type\<close>, \<^verbatim>\<open>host\<close> and \<^verbatim>\<open>selector\<close>, which \<^verbatim>\<open>_parse\<close> derives from
  \<^verbatim>\<open>_full_url\<close>, are left out.
\<close>

record request =
  full_url_attr :: string
  fragment :: "string option"
  data :: "string option"
  headers :: "string \<rightharpoonup> string"
  origin_req_host :: string
  get_method_attr :: "string option"

text \<open>The property \<^verbatim>\<open>full_url\<close>: the fragment is put back when it is not empty.\<close>

definition full_url :: "request \<Rightarrow> string" where
  "full_url r =
     (case fragment r of
        None \<Rightarrow> full_url_attr r
      | Some f \<Rightarrow> (if f \<noteq> [] then full_url_attr r @ ''#'' @ f else full_url_attr r))"

text \<open>
  \<^verbatim>\<open>request.get_method()\<close>: the assigned attribute when there is one, else
  \<^verbatim>\<open>urllib\<close>'s method, \<^verbatim>\<open>"POST" if data is not None else "GET"\<close>.
\<close>

definition get_method :: "request \<Rightarrow> string" where
  "get_method r =
     (case get_method_attr r of
        Some m \<Rightarrow> m
      | None \<Rightarrow> (if data r \<noteq> None then ''POST'' else ''GET''))"

subsection \<open>Objects and the state\<close>

type_synonym ref = nat

record BitBucket =
  username :: string
  password :: string
  oauth_key :: string
  oauth_secret :: string
  verbose :: bool

record User =
  bb :: ref
  username_user :: "string option"

record world =
  clients :: "ref \<Rightarrow> BitBucket"
  next_ref :: ref
  stdout :: "string list"
  net :: "request list"

text \<open>The receiver of a decorated method: \<^verbatim>\<open>hasattr(self, 'bb')\<close> holds of a \<^verbatim>\<open>User\<close> only.\<close>

datatype receiver = Client ref | Delegate User

type_synonym 'a result = "(exn + 'a) \<times> world"

text \<open>The libraries, as the module calls them.\<close>

record env =
  oauthlib :: "(string \<Rightarrow> string \<Rightarrow> string \<Rightarrow>
                  string + (string \<times> (string \<times> string) list \<times> string option)) option"
  request_host :: "string \<Rightarrow> string + string"
  urlopen_read :: "request \<Rightarrow> string + string"
  json_loads :: "string \<Rightarrow> string + json"
  utf8_decode :: "string \<Rightarrow> string + string"
  urlencode :: "(string \<times> string) list \<Rightarrow> string + string"
  str_of_bytes :: "string \<Rightarrow> string"

text \<open>
  \<open>oauthlib env\<close> is \<open>None\<close> when \<^verbatim>\<open>import oauthlib.oauth1\<close> raises \<^verbatim>\<open>ImportError\<close>; otherwise
  it maps the key, the secret and the URL to what
  \<^verbatim>\<open>oauthlib.oauth1.Client(key, client_secret=secret).sign(url)\<close> returns, the triple
  \<^verbatim>\<open>(uri, headers, body)\<close>, the dictionary \<^verbatim>\<open>headers\<close> as the list of its items.
  \<open>request_host\<close> is \<^verbatim>\<open>urllib\<close>'s function of that name, which the constructor of a request
  calls on the request; it parses the \<^verbatim>\<open>full_url\<close> with \<^verbatim>\<open>urlparse\<close>, which raises on some
  texts. \<open>urlopen_read\<close> is \<^verbatim>\<open>urlopen(request).read()\<close>, \<open>str_of_bytes\<close> is how \<^verbatim>\<open>str.format\<close>
  renders the payload.
\<close>

subsection \<open>Module constants and helpers\<close>

definition api_toplevel :: string where
  "api_toplevel = ''https://api.bitbucket.org/''"

definition api_base :: string where
  "api_base = api_toplevel @ ''2.0/''"

text \<open>Python's \<^verbatim>\<open>all\<close> on a tuple of \<^verbatim>\<open>str\<close>.\<close>

definition all_str :: "string list \<Rightarrow> bool" where
  "all_str xs = list_all (\<lambda>s. s \<noteq> []) xs"

text \<open>
  White space as \<^verbatim>\<open>str.isspace\<close> and the pattern \<^verbatim>\<open>\s\<close> see it, below 128: the characters
  9 to 13, 28 to 32.
\<close>

definition isspace :: "char \<Rightarrow> bool" where
  "isspace c = (let n = (of_char c :: nat) in (9 \<le> n \<and> n \<le> 13) \<or> (28 \<le> n \<and> n \<le> 32))"

definition strip :: "string \<Rightarrow> string" where
  "strip s = rev (dropWhile isspace (rev (dropWhile isspace s)))"

subsection \<open>The constructor of a request\<close>

text \<open>
  \<^verbatim>\<open>urllib.parse.unwrap\<close>, \<^verbatim>\<open>_splittag\<close> (\<^verbatim>\<open>rpartition('#')\<close>) and \<^verbatim>\<open>_splittype\<close> (the pattern
  \<^verbatim>\<open>([^/:]+):(.*)\<close> at the start of the text), and \<^verbatim>\<open>str.capitalize\<close>, \<^verbatim>\<open>str.lower\<close> on ASCII.
\<close>

definition unwrap :: "string \<Rightarrow> string" where
  "unwrap url0 =
     (let url = strip url0;
          url = (if take 1 url = ''<'' \<and> url \<noteq> [] \<and> last url = CHR ''>''
                 then strip (butlast (tl url)) else url);
          url = (if take 4 url = ''URL:'' then strip (drop 4 url) else url)
      in url)"

definition splittag :: "string \<Rightarrow> string \<times> string option" where
  "splittag url =
     (if CHR ''#'' \<in> set url
      then (rev (tl (dropWhile (\<lambda>c. c \<noteq> CHR ''#'') (rev url))),
            Some (rev (takeWhile (\<lambda>c. c \<noteq> CHR ''#'') (rev url))))
      else (url, None))"

definition ascii_lower :: "char \<Rightarrow> char" where
  "ascii_lower c =
     (if 65 \<le> (of_char c :: nat) \<and> (of_char c :: nat) \<le> 90 then char_of (of_char c + 32 :: nat)
      else c)"

definition ascii_upper :: "char \<Rightarrow> char" where
  "ascii_upper c =
     (if 97 \<le> (of_char c :: nat) \<and> (of_char c :: nat) \<le> 122 then char_of (of_char c - 32 :: nat)
      else c)"

fun capitalize :: "string \<Rightarrow> string" where
  "capitalize [] = []"
| "capitalize (c # s) = ascii_upper c # map ascii_lower s"

definition splittype :: "string \<Rightarrow> (string \<times> string) option" where
  "splittype url =
     (let scheme = takeWhile (\<lambda>c. c \<noteq> CHR ''/'' \<and> c \<noteq> CHR '':'') url;
          rest = dropWhile (\<lambda>c. c \<noteq> CHR ''/'' \<and> c \<noteq> CHR '':'') url
      in if scheme \<noteq> [] \<and> take 1 rest = '':'' then Some (map ascii_lower scheme, tl rest)
         else None)"

text \<open>
  \<^verbatim>\<open>for key, value in headers.items(): self.add_header(key, value)\<close>, on the empty
  dictionary of a new request.
\<close>

definition add_headers :: "(string \<times> string) list \<Rightarrow> (string \<rightharpoonup> string)" where
  "add_headers items = foldl (\<lambda>h (k, v). h(capitalize k \<mapsto> v)) Map.empty items"

text \<open>
  \<^verbatim>\<open>Request(url, data, headers)\<close>. The setter of \<^verbatim>\<open>full_url\<close> unwraps the text, splits the
  fragment off and raises \<^verbatim>\<open>ValueError\<close> (\<^verbatim>\<open>unknown url type\<close>) when there is no scheme; then the
  data and the headers are stored and \<^verbatim>\<open>request_host\<close> is called.
\<close>

definition Request ::
  "env \<Rightarrow> string \<Rightarrow> string option \<Rightarrow> (string \<times> string) list \<Rightarrow> exn + request" where
  "Request e url d hs =
     (let (u, frag) = splittag (unwrap url)
      in case splittype u of
           None \<Rightarrow> Inl (ValueError ''unknown url type'')
         | Some (ty, rest) \<Rightarrow>
             (let r = \<lparr>full_url_attr = u, fragment = frag, data = d, headers = add_headers hs,
                       origin_req_host = [], get_method_attr = None\<rparr>
              in case request_host e (full_url r) of
                   Inl err \<Rightarrow> Inl (Propagated err)
                 | Inr h \<Rightarrow> Inr (r\<lparr>origin_req_host := h\<rparr>)))"

text \<open>
  The text that the property \<^verbatim>\<open>full_url\<close> of \<^verbatim>\<open>Request(url)\<close> returns, in closed form: the
  unwrapped text, without the number sign at its end when there is one (an empty
  fragment).
\<close>

definition normal_url :: "string \<Rightarrow> string" where
  "normal_url url =
     (let u = unwrap url in if u \<noteq> [] \<and> last u = CHR ''#'' then butlast u else u)"

subsection \<open>\<^verbatim>\<open>base64.b64encode\<close>\<close>

definition b64_alphabet :: string where
  "b64_alphabet = ''ABCDEFGHIJKLMNOPQRSTUVWXYZabcdefghijklmnopqrstuvwxyz0123456789+/''"

definition b64_char :: "nat \<Rightarrow> char" where
  "b64_char n = b64_alphabet ! (n mod 64)"

fun b64encode :: "string \<Rightarrow> string" where
  "b64encode [] = []"
| "b64encode [a] =
     (let x = (of_char a :: nat)
      in [b64_char (x div 4), b64_char (x mod 4 * 16), CHR ''='', CHR ''=''])"
| "b64encode [a, b] =
     (let x = (of_char a :: nat); y = (of_char b :: nat)
      in [b64_char (x div 4), b64_char (x mod 4 * 16 + y div 16),
          b64_char (y mod 16 * 4), CHR ''=''])"
| "b64encode (a # b # c # rest) =
     (let x = (of_char a :: nat); y = (of_char b :: nat); z = (of_char c :: nat)
      in [b64_char (x div 4), b64_char (x mod 4 * 16 + y div 16),
          b64_char (y mod 16 * 4 + z div 64), b64_char (z mod 64)] @ b64encode rest)"

subsection \<open>The class \<^verbatim>\<open>BitBucket\<close>\<close>

text \<open>\<^verbatim>\<open>__init__\<close>: a new object, its five fields assigned from the arguments.\<close>

definition BitBucket_init ::
  "string \<Rightarrow> string \<Rightarrow> string \<Rightarrow> string \<Rightarrow> bool \<Rightarrow> world \<Rightarrow> ref \<times> world" where
  "BitBucket_init u p k s v w =
     (next_ref w,
      w\<lparr>clients := (clients w)(next_ref w :=
            \<lparr>username = u, password = p, oauth_key = k, oauth_secret = s, verbose = v\<rparr>),
        next_ref := Suc (next_ref w)\<rparr>)"

definition build_request ::
  "env \<Rightarrow> ref \<Rightarrow> string \<Rightarrow> string \<Rightarrow> string option \<Rightarrow> world \<Rightarrow> request result" where
  "build_request e self url method d w =
     (let c = clients w self in
      if all_str [oauth_key c, oauth_secret c] then
        (case oauthlib e of
           None \<Rightarrow>
             (Inl (SystemExit 0),
              w\<lparr>stdout := stdout w @
                [''You must install oauthlib if you want to use oauth `pip install oauthlib`'']\<rparr>)
         | Some sign \<Rightarrow>
             (case sign (oauth_key c) (oauth_secret c) url of
                Inl err \<Rightarrow> (Inl (Propagated err), w)
              | Inr (uri, hs, body) \<Rightarrow>
                  (case Request e url d hs of
                     Inl x \<Rightarrow> (Inl x, w)
                   | Inr request \<Rightarrow> (Inr request, w))))
      else if all_str [username c, password c] then
        (let auth = username c @ '':'' @ password c;
             auth = [(''Authorization'', ''Basic '' @ strip (b64encode auth))]
         in case Request e url d auth of
              Inl x \<Rightarrow> (Inl x, w)
            | Inr request \<Rightarrow> (Inr (request\<lparr>get_method_attr := Some method\<rparr>), w))
      else (case Request e url None [] of
              Inl x \<Rightarrow> (Inl x, w)
            | Inr request \<Rightarrow> (Inr request, w)))"

definition load_url ::
  "env \<Rightarrow> ref \<Rightarrow> string \<Rightarrow> string \<Rightarrow> string option \<Rightarrow> world \<Rightarrow> string result" where
  "load_url e self url method d w =
     (let w1 = (if verbose (clients w self)
                then w\<lparr>stdout := stdout w @ [''Sending request to: ['' @ url @ '']'']\<rparr>
                else w)
      in case build_request e self url method d w1 of
           (Inl x, w2) \<Rightarrow> (Inl x, w2)
         | (Inr request, w2) \<Rightarrow>
             (let w3 = w2\<lparr>net := net w2 @ [request]\<rparr>
              in case urlopen_read e request of
                   Inl err \<Rightarrow> (Inl (Propagated err), w3)
                 | Inr result \<Rightarrow>
                     (Inr result,
                      if verbose (clients w3 self)
                      then w3\<lparr>stdout := stdout w3 @
                             [''Response data: ['' @ str_of_bytes e result @ '']'']\<rparr>
                      else w3)))"

definition user :: "ref \<Rightarrow> string option \<Rightarrow> User" where
  "user self name = \<lparr>bb = self, username_user = name\<rparr>"

text \<open>
  The decorator. \<open>name\<close> is \<^verbatim>\<open>method.__name__\<close>; the credentials are read from
  \<^verbatim>\<open>self.bb\<close> when the receiver has that attribute, from the receiver otherwise.
\<close>

definition requires_authentication ::
  "string \<Rightarrow> (receiver \<Rightarrow> 'a \<Rightarrow> world \<Rightarrow> 'b result) \<Rightarrow> receiver \<Rightarrow> 'a \<Rightarrow> world \<Rightarrow> 'b result" where
  "requires_authentication name method self args w =
     (let u = (case self of Delegate h \<Rightarrow> username (clients w (bb h))
                          | Client r \<Rightarrow> username (clients w r));
          p = (case self of Delegate h \<Rightarrow> password (clients w (bb h))
                          | Client r \<Rightarrow> password (clients w r))
      in if \<not> all_str [u, p]
         then (Inl (AuthenticationRequired (name @ '' requires authentication'')), w)
         else method self args w)"

text \<open>
  The bodies of the two decorated methods. A receiver that is not a \<^verbatim>\<open>BitBucket\<close> has no
  \<^verbatim>\<open>load_url\<close>. \<^verbatim>\<open>json.loads\<close> is applied to the payload as \<^verbatim>\<open>load_url\<close> returns it.
\<close>

definition loads :: "env \<Rightarrow> string \<Rightarrow> world \<Rightarrow> json result" where
  "loads e s w = (case json_loads e s of Inl err \<Rightarrow> (Inl (Propagated err), w) | Inr j \<Rightarrow> (Inr j, w))"

definition emails_body :: "env \<Rightarrow> receiver \<Rightarrow> unit \<Rightarrow> world \<Rightarrow> json result" where
  "emails_body e self args w =
     (let url = api_base @ ''emails/''
      in case self of
           Delegate h \<Rightarrow> (Inl (AttributeError ''load_url''), w)
         | Client r \<Rightarrow>
             (case load_url e r url ''GET'' None w of
                (Inl x, w') \<Rightarrow> (Inl x, w')
              | (Inr result, w') \<Rightarrow> loads e result w'))"

definition emails :: "env \<Rightarrow> receiver \<Rightarrow> unit \<Rightarrow> world \<Rightarrow> json result" where
  "emails e = requires_authentication ''emails'' (emails_body e)"

definition create_repo_body ::
  "env \<Rightarrow> receiver \<Rightarrow> (string \<times> string) list \<Rightarrow> world \<Rightarrow> json result" where
  "create_repo_body e self repo_data w =
     (let url = api_base @ ''repositories/''
      in case self of
           Delegate h \<Rightarrow> (Inl (AttributeError ''load_url''), w)
         | Client r \<Rightarrow>
             (case urlencode e repo_data of
                Inl err \<Rightarrow> (Inl (Propagated err), w)
              | Inr body \<Rightarrow>
                  (case load_url e r url ''POST'' (Some body) w of
                     (Inl x, w') \<Rightarrow> (Inl x, w')
                   | (Inr result, w') \<Rightarrow> loads e result w')))"

definition create_repo ::
  "env \<Rightarrow> receiver \<Rightarrow> (string \<times> string) list \<Rightarrow> world \<Rightarrow> json result" where
  "create_repo e = requires_authentication ''create_repo'' (create_repo_body e)"

definition BitBucket_repr :: "ref \<Rightarrow> world \<Rightarrow> string" where
  "BitBucket_repr self w =
     (let c = clients w self;
          extra = (if all_str [username c, password c]
                   then '' (auth: '' @ username c @ '')'' else '''')
      in ''<BitBucket API'' @ extra @ ''>'')"

subsection \<open>The class \<^verbatim>\<open>User\<close>\<close>

text \<open>Subscripting a decoded value with a \<^verbatim>\<open>str\<close> key.\<close>

definition getitem :: "json \<Rightarrow> string \<Rightarrow> exn + json" where
  "getitem j k =
     (case j of
        JObject kvs \<Rightarrow> (case map_of kvs k of None \<Rightarrow> Inl (KeyError k) | Some v \<Rightarrow> Inr v)
      | _ \<Rightarrow> Inl (TypeError ''subscript''))"

definition decode_loads :: "env \<Rightarrow> string \<Rightarrow> world \<Rightarrow> json result" where
  "decode_loads e payload w =
     (case utf8_decode e payload of
        Inl err \<Rightarrow> (Inl (Propagated err), w)
      | Inr s \<Rightarrow> loads e s w)"

definition get :: "env \<Rightarrow> User \<Rightarrow> world \<Rightarrow> json result" where
  "get e self w =
     (let url = (case username_user self of
                   None \<Rightarrow> api_base @ ''user/''
                 | Some u \<Rightarrow> api_base @ ''teams/'' @ u)
      in case load_url e (bb self) url ''GET'' None w of
           (Inl x, w') \<Rightarrow> (Inl x, w')
         | (Inr payload, w') \<Rightarrow> decode_loads e payload w')"

definition get_repos :: "env \<Rightarrow> User \<Rightarrow> world \<Rightarrow> json result" where
  "get_repos e self w =
     (case username_user self of
        None \<Rightarrow> (Inl (PyException ''username missing''), w)
      | Some u \<Rightarrow>
          (let url = api_base @ ''repositories/'' @ u @ ''?pagelen=100''
           in case load_url e (bb self) url ''GET'' None w of
                (Inl x, w') \<Rightarrow> (Inl x, w')
              | (Inr payload, w') \<Rightarrow> decode_loads e payload w'))"

definition repositories :: "env \<Rightarrow> User \<Rightarrow> world \<Rightarrow> json result" where
  "repositories e self w =
     (case get_repos e self w of
        (Inl x, w') \<Rightarrow> (Inl x, w')
      | (Inr j, w') \<Rightarrow> (getitem j ''values'', w'))"

text \<open>\<^verbatim>\<open>'%s' % None\<close> is the text \<^verbatim>\<open>None\<close>.\<close>

definition User_repr :: "User \<Rightarrow> string" where
  "User_repr self =
     ''<User: '' @ (case username_user self of None \<Rightarrow> ''None'' | Some u \<Rightarrow> u) @ ''>''"

subsection \<open>The \<^verbatim>\<open>datetime\<close> module: dates, week days, the constructor\<close>

text \<open>
  The parts of Python's \<^verbatim>\<open>datetime\<close> that \<^verbatim>\<open>to_datetime\<close> reaches, after the library's
  \<^verbatim>\<open>_is_leap\<close>, \<^verbatim>\<open>_days_in_month\<close>, \<^verbatim>\<open>_days_before_year\<close>, \<^verbatim>\<open>_days_before_month\<close>,
  \<^verbatim>\<open>_ymd2ord\<close>, \<^verbatim>\<open>_check_date_fields\<close>, \<^verbatim>\<open>_check_time_fields\<close> and \<^verbatim>\<open>date.weekday\<close>. The texts
  of the \<^verbatim>\<open>ValueError\<close>s are shortened to the name of the field.
\<close>

record datetime =
  year :: int
  month :: int
  day :: int
  hour :: int
  minute :: int
  second :: int
  microsecond :: int

definition is_leap :: "int \<Rightarrow> bool" where
  "is_leap y = (y mod 4 = 0 \<and> (y mod 100 \<noteq> 0 \<or> y mod 400 = 0))"

definition DAYS_IN_MONTH :: "int list" where
  "DAYS_IN_MONTH = [-1, 31, 28, 31, 30, 31, 30, 31, 31, 30, 31, 30, 31]"

definition DAYS_BEFORE_MONTH :: "int list" where
  "DAYS_BEFORE_MONTH = [-1, 0, 31, 59, 90, 120, 151, 181, 212, 243, 273, 304, 334]"

definition days_in_month :: "int \<Rightarrow> int \<Rightarrow> int" where
  "days_in_month y m = (if m = 2 \<and> is_leap y then 29 else DAYS_IN_MONTH ! nat m)"

definition days_before_year :: "int \<Rightarrow> int" where
  "days_before_year yr = (let y = yr - 1 in y * 365 + y div 4 - y div 100 + y div 400)"

definition days_before_month :: "int \<Rightarrow> int \<Rightarrow> int" where
  "days_before_month y m = DAYS_BEFORE_MONTH ! nat m + (if m > 2 \<and> is_leap y then 1 else 0)"

definition ymd2ord :: "int \<Rightarrow> int \<Rightarrow> int \<Rightarrow> int" where
  "ymd2ord y m d = days_before_year y + days_before_month y m + d"

definition check_date_fields :: "int \<Rightarrow> int \<Rightarrow> int \<Rightarrow> exn + unit" where
  "check_date_fields y m d =
     (if \<not> (1 \<le> y \<and> y \<le> 9999) then Inl (ValueError ''year'')
      else if \<not> (1 \<le> m \<and> m \<le> 12) then Inl (ValueError ''month'')
      else if \<not> (1 \<le> d \<and> d \<le> days_in_month y m) then Inl (ValueError ''day'')
      else Inr ())"

definition check_time_fields :: "int \<Rightarrow> int \<Rightarrow> int \<Rightarrow> int \<Rightarrow> exn + unit" where
  "check_time_fields h mi s us =
     (if \<not> (0 \<le> h \<and> h \<le> 23) then Inl (ValueError ''hour'')
      else if \<not> (0 \<le> mi \<and> mi \<le> 59) then Inl (ValueError ''minute'')
      else if \<not> (0 \<le> s \<and> s \<le> 59) then Inl (ValueError ''second'')
      else if \<not> (0 \<le> us \<and> us \<le> 999999) then Inl (ValueError ''microsecond'')
      else Inr ())"

text \<open>\<^verbatim>\<open>date(y, m, d).weekday()\<close>, Monday being 0, for a date that passed the check.\<close>

definition weekday :: "int \<Rightarrow> int \<Rightarrow> int \<Rightarrow> int" where
  "weekday y m d = (ymd2ord y m d + 6) mod 7"

definition datetime_new ::
  "int \<Rightarrow> int \<Rightarrow> int \<Rightarrow> int \<Rightarrow> int \<Rightarrow> int \<Rightarrow> int \<Rightarrow> exn + datetime" where
  "datetime_new y m d h mi s us =
     (case check_date_fields y m d of
        Inl x \<Rightarrow> Inl x
      | Inr _ \<Rightarrow>
          (case check_time_fields h mi s us of
             Inl x \<Rightarrow> Inl x
           | Inr _ \<Rightarrow>
               Inr \<lparr>year = y, month = m, day = d, hour = h, minute = mi, second = s,
                    microsecond = us\<rparr>))"

text \<open>
  The call \<^verbatim>\<open>datetime.datetime(*args)\<close> on a sequence of integers: the parameters are
  \<^verbatim>\<open>year, month, day, hour=0, minute=0, second=0, microsecond=0\<close>, then \<^verbatim>\<open>tzinfo\<close>, which an
  integer cannot be.
\<close>

fun datetime_call :: "int list \<Rightarrow> exn + datetime" where
  "datetime_call [y, m, d] = datetime_new y m d 0 0 0 0"
| "datetime_call [y, m, d, h] = datetime_new y m d h 0 0 0"
| "datetime_call [y, m, d, h, mi] = datetime_new y m d h mi 0 0"
| "datetime_call [y, m, d, h, mi, s] = datetime_new y m d h mi s 0"
| "datetime_call [y, m, d, h, mi, s, us] = datetime_new y m d h mi s us"
| "datetime_call args = Inl (TypeError ''datetime'')"

subsection \<open>\<^verbatim>\<open>time.strptime\<close> with the format \<^verbatim>\<open>%Y-%m-%d %H:%M:%S\<close>\<close>

text \<open>
  \<^verbatim>\<open>_strptime\<close> turns the format into the pattern
  \<^verbatim>\<open>(?P<Y>\d\d\d\d)-(?P<m>1[0-2]|0[1-9]|[1-9])-(?P<d>3[0-1]|[1-2]\d|0[1-9]|[1-9]| [1-9])\s+\<close>
  \<^verbatim>\<open>(?P<H>2[0-3]|[0-1]\d|\d):(?P<M>[0-5]\d|\d):(?P<S>6[0-1]|[0-5]\d|\d)\<close>
  and matches it at the start of the text. A piece of the pattern is modelled by the list of
  its matches at the start of a text, each with the text that remains, in the order in
  which the backtracking matcher tries them; the match of the whole pattern is the first
  of the list. Digits are the ASCII digits.
\<close>

definition isdigit :: "char \<Rightarrow> bool" where
  "isdigit c = (48 \<le> (of_char c :: nat) \<and> (of_char c :: nat) \<le> 57)"

definition between :: "char \<Rightarrow> char \<Rightarrow> char \<Rightarrow> bool" where
  "between lo hi c = ((of_char lo :: nat) \<le> of_char c \<and> (of_char c :: nat) \<le> of_char hi)"

fun cls1 :: "(char \<Rightarrow> bool) \<Rightarrow> string \<Rightarrow> (string \<times> string) list" where
  "cls1 P (a # s) = (if P a then [([a], s)] else [])"
| "cls1 P [] = []"

fun cls2 :: "(char \<Rightarrow> bool) \<Rightarrow> (char \<Rightarrow> bool) \<Rightarrow> string \<Rightarrow> (string \<times> string) list" where
  "cls2 P Q (a # b # s) = (if P a \<and> Q b then [([a, b], s)] else [])"
| "cls2 P Q s = []"

fun lit :: "char \<Rightarrow> string \<Rightarrow> string list" where
  "lit c (a # s) = (if a = c then [s] else [])"
| "lit c [] = []"

definition re_Y :: "string \<Rightarrow> (string \<times> string) list" where
  "re_Y s =
     (case s of
        a # b # c # d # r \<Rightarrow>
          (if isdigit a \<and> isdigit b \<and> isdigit c \<and> isdigit d then [([a, b, c, d], r)] else [])
      | _ \<Rightarrow> [])"

definition re_m :: "string \<Rightarrow> (string \<times> string) list" where
  "re_m s = cls2 ((=) CHR ''1'') (between CHR ''0'' CHR ''2'') s
          @ cls2 ((=) CHR ''0'') (between CHR ''1'' CHR ''9'') s
          @ cls1 (between CHR ''1'' CHR ''9'') s"

definition re_d :: "string \<Rightarrow> (string \<times> string) list" where
  "re_d s = cls2 ((=) CHR ''3'') (between CHR ''0'' CHR ''1'') s
          @ cls2 (between CHR ''1'' CHR ''2'') isdigit s
          @ cls2 ((=) CHR ''0'') (between CHR ''1'' CHR ''9'') s
          @ cls1 (between CHR ''1'' CHR ''9'') s
          @ cls2 ((=) CHR '' '') (between CHR ''1'' CHR ''9'') s"

definition re_H :: "string \<Rightarrow> (string \<times> string) list" where
  "re_H s = cls2 ((=) CHR ''2'') (between CHR ''0'' CHR ''3'') s
          @ cls2 (between CHR ''0'' CHR ''1'') isdigit s
          @ cls1 isdigit s"

definition re_M :: "string \<Rightarrow> (string \<times> string) list" where
  "re_M s = cls2 (between CHR ''0'' CHR ''5'') isdigit s
          @ cls1 isdigit s"

definition re_S :: "string \<Rightarrow> (string \<times> string) list" where
  "re_S s = cls2 ((=) CHR ''6'') (between CHR ''0'' CHR ''1'') s
          @ cls2 (between CHR ''0'' CHR ''5'') isdigit s
          @ cls1 isdigit s"

text \<open>\<^verbatim>\<open>\s+\<close>: the longest run of white space first, then each shorter one.\<close>

definition re_spaces :: "string \<Rightarrow> string list" where
  "re_spaces s = map (\<lambda>k. drop k s) (rev [1 ..< Suc (length (takeWhile isspace s))])"

definition format_regex ::
  "string \<Rightarrow> ((string \<times> string \<times> string \<times> string \<times> string \<times> string) \<times> string) list" where
  "format_regex s =
     [((gY, gm, gd, gH, gM, gS), s11).
        (gY, s1) \<leftarrow> re_Y s, s2 \<leftarrow> lit CHR ''-'' s1,
        (gm, s3) \<leftarrow> re_m s2, s4 \<leftarrow> lit CHR ''-'' s3,
        (gd, s5) \<leftarrow> re_d s4, s6 \<leftarrow> re_spaces s5,
        (gH, s7) \<leftarrow> re_H s6, s8 \<leftarrow> lit CHR '':'' s7,
        (gM, s9) \<leftarrow> re_M s8, s10 \<leftarrow> lit CHR '':'' s9,
        (gS, s11) \<leftarrow> re_S s10]"

text \<open>
  \<^verbatim>\<open>int\<close> of a matched group: the group is digits, after one blank in the last
  alternative of \<^verbatim>\<open>%d\<close>; \<^verbatim>\<open>int\<close> ignores surrounding white space.
\<close>

definition py_int :: "string \<Rightarrow> int" where
  "py_int g = foldl (\<lambda>n c. 10 * n + (int (of_char c) - 48)) 0 (strip g)"

text \<open>
  The result is the sequence of the nine fields of the \<^verbatim>\<open>struct_time\<close>: year, month, day,
  hour, minute, second, week day, day of the year, and \<^verbatim>\<open>-1\<close> for the daylight flag. The
  two \<^verbatim>\<open>datetime_date\<close> objects that \<^verbatim>\<open>_strptime\<close> builds are checked as the constructor
  checks them.
\<close>

definition strptime :: "string \<Rightarrow> exn + int list" where
  "strptime s =
     (case format_regex s of
        [] \<Rightarrow> Inl (ValueError ''time data does not match format'')
      | ((gY, gm, gd, gH, gM, gS), rest) # others \<Rightarrow>
          if rest \<noteq> [] then Inl (ValueError ''unconverted data remains'')
          else
            (let y = py_int gY; m = py_int gm; d = py_int gd;
                 h = py_int gH; mi = py_int gM; sec = py_int gS
             in case check_date_fields y m d of
                  Inl x \<Rightarrow> Inl x
                | Inr _ \<Rightarrow>
                    (case check_date_fields y 1 1 of
                       Inl x \<Rightarrow> Inl x
                     | Inr _ \<Rightarrow>
                         (let julian = ymd2ord y m d - ymd2ord y 1 1 + 1;
                              wd = weekday y m d
                          in Inr [y, m, d, h, mi, sec, wd, julian, -1]))))"

subsection \<open>\<^verbatim>\<open>to_datetime\<close>\<close>

text \<open>\<^verbatim>\<open>timestring.split('+')[0]\<close>: the text before the first plus sign.\<close>

definition split_plus_0 :: "string \<Rightarrow> string" where
  "split_plus_0 s = takeWhile (\<lambda>c. c \<noteq> CHR ''+'') s"

definition to_datetime :: "string \<Rightarrow> exn + datetime" where
  "to_datetime timestring =
     (let timestring = strip (split_plus_0 timestring)
      in case strptime timestring of
           Inl x \<Rightarrow> Inl x
         | Inr st \<Rightarrow> datetime_call (take 7 st))"

subsection \<open>Sequences of calls\<close>

text \<open>
  A caller's use of the module over time: it constructs clients and calls methods, in any
  order and with any arguments; the libraries may answer differently at each call. \<open>perform\<close>
  runs one call and keeps the state it leaves, whether the call returned or raised. The
  methods \<^verbatim>\<open>user\<close> and \<^verbatim>\<open>__repr__\<close> have no effect on the state and are functions of it.
\<close>

datatype call =
    New string string string string bool
  | Build_request ref string string "string option"
  | Load_url ref string string "string option"
  | Emails receiver
  | Create_repo receiver "(string \<times> string) list"
  | Get User
  | Get_repos User
  | Repositories User

fun perform :: "env \<times> call \<Rightarrow> world \<Rightarrow> world" where
  "perform (e, New u p k s v) w = snd (BitBucket_init u p k s v w)"
| "perform (e, Build_request self url method d) w = snd (build_request e self url method d w)"
| "perform (e, Load_url self url method d) w = snd (load_url e self url method d w)"
| "perform (e, Emails self) w = snd (emails e self () w)"
| "perform (e, Create_repo self repo_data) w = snd (create_repo e self repo_data w)"
| "perform (e, Get h) w = snd (get e h w)"
| "perform (e, Get_repos h) w = snd (get_repos e h w)"
| "perform (e, Repositories h) w = snd (repositories e h w)"

subsection \<open>The text of a timestamp\<close>

text \<open>
  The form \<^verbatim>\<open>YYYY-MM-DD HH:MM:SS\<close>, as \<^verbatim>\<open>'%04d-%02d-%02d %02d:%02d:%02d'\<close> writes six numbers.
\<close>

definition digit_char :: "nat \<Rightarrow> char" where
  "digit_char n = char_of (48 + n mod 10)"

definition pad2 :: "nat \<Rightarrow> string" where
  "pad2 n = [digit_char (n div 10), digit_char n]"

definition pad4 :: "nat \<Rightarrow> string" where
  "pad4 n = [digit_char (n div 1000), digit_char (n div 100), digit_char (n div 10), digit_char n]"

definition timestamp :: "nat \<Rightarrow> nat \<Rightarrow> nat \<Rightarrow> nat \<Rightarrow> nat \<Rightarrow> nat \<Rightarrow> string" where
  "timestamp y m d h mi s =
     pad4 y @ ''-'' @ pad2 m @ ''-'' @ pad2 d @ '' '' @ pad2 h @ '':'' @ pad2 mi @ '':'' @ pad2 s"

subsection \<open>Test doubles\<close>

text \<open>
  A state with no client constructed yet, and stand-ins for the libraries: a signer that
  answers with an \<^verbatim>\<open>OAuth\<close> header naming the key, a \<^verbatim>\<open>request_host\<close> that never raises, a
  transport that answers every request with one fixed payload, a decoder of that payload.
\<close>

definition world0 :: world where
  "world0 =
     \<lparr>clients = (\<lambda>r. \<lparr>username = [], password = [], oauth_key = [], oauth_secret = [],
                       verbose = False\<rparr>),
      next_ref = 0, stdout = [], net = []\<rparr>"

definition oauth_stub ::
  "string \<Rightarrow> string \<Rightarrow> string \<Rightarrow> string + (string \<times> (string \<times> string) list \<times> string option)" where
  "oauth_stub k s url =
     Inr (url, [(''Authorization'', ''OAuth oauth_consumer_key='' @ k)], None)"

text \<open>
  The request that the constructor returns with these stand-ins, for a text that unwraps
  to \<open>u\<close> and has no fragment.
\<close>

definition stub_request ::
  "string \<Rightarrow> string option \<Rightarrow> (string \<rightharpoonup> string) \<Rightarrow> string option \<Rightarrow> request" where
  "stub_request u d hs m =
     \<lparr>full_url_attr = u, fragment = None, data = d, headers = hs,
      origin_req_host = ''api.bitbucket.org'', get_method_attr = m\<rparr>"

definition stub_payload :: string where
  \<open>stub_payload = ''{"values": [{"name":"r1"}], "pagelen":100}''\<close>

definition stub_json :: json where
  "stub_json =
     JObject [(''values'', JArray [JObject [(''name'', JString ''r1'')]]),
              (''pagelen'', JNumber 100)]"

definition stub_env :: env where
  "stub_env =
     \<lparr>oauthlib = Some oauth_stub,
      request_host = (\<lambda>url. Inr ''api.bitbucket.org''),
      urlopen_read = (\<lambda>r. Inr stub_payload),
      json_loads = (\<lambda>s. if s = stub_payload then Inr stub_json else Inl ''JSONDecodeError''),
      utf8_decode = (\<lambda>s. Inr s),
      urlencode = (\<lambda>kvs. Inr (concat (map (\<lambda>(k, v). k @ ''='' @ v @ ''&'') kvs))),
      str_of_bytes = (\<lambda>s. s)\<rparr>"

text \<open>The state after one client was constructed, at reference 0.\<close>

definition client_world :: "string \<Rightarrow> string \<Rightarrow> string \<Rightarrow> string \<Rightarrow> bool \<Rightarrow> world" where
  "client_world u p k s v = snd (BitBucket_init u p k s v world0)"

section \<open>Properties\<close>

subsection \<open>Helpers\<close>

lemma all_str2: "all_str [a, b] \<longleftrightarrow> a \<noteq> [] \<and> b \<noteq> []"
  by (simp add: all_str_def)

lemma b64_char_no_space: "\<not> isspace (b64_char n)"
proof -
  have "\<forall>c \<in> set b64_alphabet. \<not> isspace c"
    by (simp add: b64_alphabet_def isspace_def)
  moreover have "b64_char n \<in> set b64_alphabet"
    unfolding b64_char_def by (rule nth_mem) (simp add: b64_alphabet_def)
  ultimately show ?thesis by blast
qed

lemma eq_no_space: "\<not> isspace CHR ''=''"
  by (simp add: isspace_def)

lemma b64encode_no_space: "c \<in> set (b64encode s) \<Longrightarrow> \<not> isspace c"
  by (induction s arbitrary: c rule: b64encode.induct)
     (auto simp: Let_def b64_char_no_space eq_no_space)

lemma dropWhile_none: "\<forall>c \<in> set s. \<not> P c \<Longrightarrow> dropWhile P s = s"
  by (cases s) auto

lemma strip_no_space: "\<forall>c \<in> set s. \<not> isspace c \<Longrightarrow> strip s = s"
  by (simp add: strip_def dropWhile_none)

lemma strip_b64encode: "strip (b64encode s) = b64encode s"
  by (rule strip_no_space) (blast dest: b64encode_no_space)

subsection \<open>The constructor of a request\<close>

lemma add_headers_Nil: "add_headers [] = Map.empty"
  by (simp add: add_headers_def)

lemma add_headers_Authorization:
  "add_headers [(''Authorization'', v)] = [''Authorization'' \<mapsto> v]"
  by (simp add: add_headers_def ascii_upper_def ascii_lower_def)

lemma Request_args:
  "Request e url d hs =
     (case Request e url None [] of
        Inl x \<Rightarrow> Inl x
      | Inr r \<Rightarrow> Inr (r\<lparr>data := d, headers := add_headers hs\<rparr>))"
  by (simp add: Request_def Let_def full_url_def add_headers_Nil
           split: prod.splits option.splits sum.splits)

lemma Request_fields:
  "Request e url d hs = Inr r \<Longrightarrow>
     data r = d \<and> headers r = add_headers hs \<and> get_method_attr r = None"
  by (auto simp: Request_def Let_def split: prod.splits option.splits sum.splits)


lemma splittag_None: "splittag u = (p, None) \<Longrightarrow> p = u \<and> CHR ''#'' \<notin> set u"
  by (auto simp: splittag_def split: if_splits)

lemma splittag_Some:
  assumes "splittag u = (p, Some t)"
  shows "u = p @ CHR ''#'' # t \<and> CHR ''#'' \<notin> set t"
proof -
  let ?P = "\<lambda>c. c \<noteq> CHR ''#''"
  have m: "CHR ''#'' \<in> set u"
    and p: "p = rev (tl (dropWhile ?P (rev u)))"
    and t: "t = rev (takeWhile ?P (rev u))"
    using assms by (auto simp: splittag_def split: if_splits)
  have "dropWhile ?P (rev u) \<noteq> []"
    using m by (simp add: dropWhile_eq_Nil_conv)
  moreover have "hd (dropWhile ?P (rev u)) = CHR ''#''"
    using hd_dropWhile [of ?P "rev u"] calculation by simp
  ultimately have d: "dropWhile ?P (rev u) = CHR ''#'' # tl (dropWhile ?P (rev u))"
    by (metis list.collapse)
  have "rev u = takeWhile ?P (rev u) @ dropWhile ?P (rev u)"
    by simp
  then have "rev u = rev t @ CHR ''#'' # rev p"
    using d by (simp add: p t)
  then have "rev (rev u) = rev (rev t @ CHR ''#'' # rev p)"
    by simp
  then have "u = p @ CHR ''#'' # t"
    by simp
  moreover have "CHR ''#'' \<notin> set t"
    unfolding t using set_takeWhileD [of "CHR ''#''" ?P "rev u"] by auto
  ultimately show ?thesis by simp
qed

lemma full_url_Request:
  assumes "Request e url d hs = Inr r"
  shows "full_url r = normal_url url"
proof -
  obtain p frag where s: "splittag (unwrap url) = (p, frag)"
    by (cases "splittag (unwrap url)") blast
  have a: "full_url_attr r = p" and f: "fragment r = frag"
    using assms s by (auto simp: Request_def Let_def split: option.splits sum.splits)
  show ?thesis
  proof (cases frag)
    case None
    then have "p = unwrap url" "CHR ''#'' \<notin> set (unwrap url)"
      using splittag_None [of "unwrap url" p] s by simp_all
    then have "unwrap url \<noteq> [] \<Longrightarrow> last (unwrap url) \<noteq> CHR ''#''"
      using last_in_set [of "unwrap url"] by metis
    then have "normal_url url = unwrap url"
      by (auto simp: normal_url_def Let_def)
    then show ?thesis
      using None a f \<open>p = unwrap url\<close> by (simp add: full_url_def)
  next
    case (Some t)
    then have u: "unwrap url = p @ CHR ''#'' # t" and nt: "CHR ''#'' \<notin> set t"
      using splittag_Some [of "unwrap url" p t] s by simp_all
    show ?thesis
    proof (cases "t = []")
      case True
      then show ?thesis
        using Some a f u by (simp add: full_url_def normal_url_def Let_def butlast_append)
    next
      case False
      have "last t \<in> set t"
        using False by simp
      then have "last t \<noteq> CHR ''#''"
        using nt by metis
      then have "last (unwrap url) \<noteq> CHR ''#''"
        using u False by simp
      then show ?thesis
        using False Some a f u by (simp add: full_url_def normal_url_def Let_def)
    qed
  qed
qed

subsection \<open>Building and sending a request\<close>

lemma build_request_clients: "clients (snd (build_request e self url meth d w)) = clients w"
  by (simp add: build_request_def Let_def split: option.splits sum.splits prod.splits)

lemma build_request_next_ref: "next_ref (snd (build_request e self url meth d w)) = next_ref w"
  by (simp add: build_request_def Let_def split: option.splits sum.splits prod.splits)


lemma build_request_Inr_world:
  "build_request e self url meth d w = (Inr req, w') \<Longrightarrow> w' = w"
  by (auto simp: build_request_def Let_def split: option.splits sum.splits prod.splits if_splits)


lemma full_url_get_method_attr: "full_url (r\<lparr>get_method_attr := m\<rparr>) = full_url r"
  by (simp add: full_url_def split: option.splits)

lemma build_request_from_Request:
  assumes "build_request e self url meth d w = (Inr req, w')"
  shows "\<exists>d' hs r. Request e url d' hs = Inr r \<and>
           (req = r \<or> req = r\<lparr>get_method_attr := Some meth\<rparr>)"
proof -
  let ?c = "clients w self"
  consider (oauth) "all_str [oauth_key ?c, oauth_secret ?c]"
    | (basic) "\<not> all_str [oauth_key ?c, oauth_secret ?c]" "all_str [username ?c, password ?c]"
    | (none) "\<not> all_str [oauth_key ?c, oauth_secret ?c]" "\<not> all_str [username ?c, password ?c]"
    by blast
  then show ?thesis
  proof cases
    case oauth
    then show ?thesis
      using assms
      by (simp add: build_request_def Let_def split: option.splits sum.splits prod.splits)
         blast
  next
    case basic
    then show ?thesis
      using assms
      by (simp add: build_request_def Let_def split: sum.splits) blast
  next
    case none
    then show ?thesis
      using assms
      by (simp add: build_request_def Let_def split: sum.splits) blast
  qed
qed

lemma build_request_url:
  assumes "build_request e self url meth d w = (Inr req, w')"
  shows "full_url req = normal_url url"
proof -
  obtain d' hs r where r: "Request e url d' hs = Inr r"
    and q: "req = r \<or> req = r\<lparr>get_method_attr := Some meth\<rparr>"
    using build_request_from_Request [OF assms] by blast
  have "full_url req = full_url r"
    using q by (auto simp: full_url_get_method_attr)
  then show ?thesis
    using full_url_Request [OF r] by simp
qed

text \<open>The three branches of \<^verbatim>\<open>build_request\<close>, when a request is returned.\<close>

lemma build_request_oauth_Inr:
  assumes "all_str [oauth_key (clients w self), oauth_secret (clients w self)]"
    and "build_request e self url meth d w = (Inr req, w')"
  shows "\<exists>sign uri hs body. oauthlib e = Some sign \<and>
           sign (oauth_key (clients w self)) (oauth_secret (clients w self)) url =
             Inr (uri, hs, body) \<and>
           Request e url d hs = Inr req \<and> w' = w"
proof (cases "oauthlib e")
  case None
  then show ?thesis
    using assms by (simp add: build_request_def Let_def)
next
  case (Some sign)
  show ?thesis
  proof (cases "sign (oauth_key (clients w self)) (oauth_secret (clients w self)) url")
    case (Inl err)
    then show ?thesis
      using assms Some by (simp add: build_request_def Let_def)
  next
    case (Inr triple)
    obtain uri hs body where t: "triple = (uri, hs, body)"
      by (cases triple) blast
    show ?thesis
    proof (cases "Request e url d hs")
      case (Inl x)
      then show ?thesis
        using assms Some Inr t by (simp add: build_request_def Let_def)
    next
      case r: (Inr r)
      then have "req = r \<and> w' = w"
        using assms Some Inr t by (simp add: build_request_def Let_def)
      then show ?thesis
        using Some Inr t r by blast
    qed
  qed
qed

lemma build_request_basic_Inr:
  assumes "\<not> all_str [oauth_key (clients w self), oauth_secret (clients w self)]"
    and "all_str [username (clients w self), password (clients w self)]"
    and "build_request e self url meth d w = (Inr req, w')"
  shows "\<exists>r. Request e url d
               [(''Authorization'',
                 ''Basic '' @ b64encode (username (clients w self) @ '':'' @
                                          password (clients w self)))] = Inr r \<and>
             req = r\<lparr>get_method_attr := Some meth\<rparr> \<and> w' = w"
proof (cases "Request e url d
               [(''Authorization'',
                 ''Basic '' @ b64encode (username (clients w self) @ '':'' @
                                          password (clients w self)))]")
  case (Inl x)
  then show ?thesis
    using assms by (simp add: build_request_def Let_def strip_b64encode)
next
  case (Inr r)
  then show ?thesis
    using assms by (simp add: build_request_def Let_def strip_b64encode)
qed

lemma build_request_none_Inr:
  assumes "\<not> all_str [oauth_key (clients w self), oauth_secret (clients w self)]"
    and "\<not> all_str [username (clients w self), password (clients w self)]"
    and "build_request e self url meth d w = (Inr req, w')"
  shows "Request e url None [] = Inr req \<and> w' = w"
proof (cases "Request e url None []")
  case (Inl x)
  then show ?thesis
    using assms by (simp add: build_request_def Let_def)
next
  case (Inr r)
  then show ?thesis
    using assms by (simp add: build_request_def Let_def)
qed

lemma build_request_GET:
  "build_request e self url ''GET'' None w = (Inr req, w') \<Longrightarrow> get_method req = ''GET''"
  by (auto simp: build_request_def Let_def get_method_def dest: Request_fields
           split: option.splits sum.splits prod.splits if_splits)

lemma load_url_clients: "clients (snd (load_url e self url meth d w)) = clients w"
proof -
  obtain r w2 where b: "build_request e self url meth d
      (if verbose (clients w self)
       then w\<lparr>stdout := stdout w @ [''Sending request to: ['' @ url @ '']'']\<rparr> else w) = (r, w2)"
    by (cases "build_request e self url meth d
      (if verbose (clients w self)
       then w\<lparr>stdout := stdout w @ [''Sending request to: ['' @ url @ '']'']\<rparr> else w)") blast
  then have "clients w2 = clients w"
    using build_request_clients [of e self url meth d
      "if verbose (clients w self)
       then w\<lparr>stdout := stdout w @ [''Sending request to: ['' @ url @ '']'']\<rparr> else w"]
    by (simp split: if_splits)
  with b show ?thesis
    by (simp add: load_url_def Let_def split: sum.splits)
qed

lemma build_request_stdout_world:
  "build_request e self url meth d (w\<lparr>stdout := out\<rparr>) = (Inr req, w') \<longleftrightarrow>
   fst (build_request e self url meth d w) = Inr req \<and> w' = w\<lparr>stdout := out\<rparr>"
  by (auto simp: build_request_def Let_def split: option.splits sum.splits prod.splits if_splits)

lemma build_request_fst_Inr:
  "fst (build_request e self url meth d w) = Inr req \<longleftrightarrow>
   build_request e self url meth d w = (Inr req, w)"
  by (auto simp: build_request_def Let_def split: option.splits sum.splits prod.splits if_splits)

lemma load_url_built:
  assumes "fst (build_request e self url meth d w) = Inr req"
  shows "net (snd (load_url e self url meth d w)) = net w @ [req]"
    and "fst (load_url e self url meth d w) =
           (case urlopen_read e req of Inl err \<Rightarrow> Inl (Propagated err) | Inr p \<Rightarrow> Inr p)"
proof -
  let ?w1 = "if verbose (clients w self)
       then w\<lparr>stdout := stdout w @ [''Sending request to: ['' @ url @ '']'']\<rparr> else w"
  have b: "build_request e self url meth d ?w1 = (Inr req, ?w1)"
    using assms by (simp add: build_request_stdout_world build_request_fst_Inr)
  show "net (snd (load_url e self url meth d w)) = net w @ [req]"
    using b by (simp add: load_url_def Let_def split: sum.splits if_splits)
  show "fst (load_url e self url meth d w) =
           (case urlopen_read e req of Inl err \<Rightarrow> Inl (Propagated err) | Inr p \<Rightarrow> Inr p)"
    using b by (simp add: load_url_def Let_def split: sum.splits if_splits)
qed


lemma load_url_next_ref: "next_ref (snd (load_url e self url meth d w)) = next_ref w"
proof -
  let ?w1 = "if verbose (clients w self)
       then w\<lparr>stdout := stdout w @ [''Sending request to: ['' @ url @ '']'']\<rparr> else w"
  obtain r w2 where b: "build_request e self url meth d ?w1 = (r, w2)"
    by (cases "build_request e self url meth d ?w1") blast
  then have "next_ref w2 = next_ref w"
    using build_request_next_ref [of e self url meth d ?w1] by (simp split: if_splits)
  with b show ?thesis
    by (simp add: load_url_def Let_def split: sum.splits)
qed

lemma loads_world: "snd (loads e s w) = w"
  by (simp add: loads_def split: sum.splits)

lemma decode_loads_world: "snd (decode_loads e s w) = w"
  by (simp add: decode_loads_def loads_world split: sum.splits)

lemma loads_fst:
  "fst (loads e s w) = (case json_loads e s of Inl err \<Rightarrow> Inl (Propagated err) | Inr j \<Rightarrow> Inr j)"
  by (simp add: loads_def split: sum.splits)

lemma decode_loads_fst:
  "fst (decode_loads e p w) =
     (case utf8_decode e p of
        Inl err \<Rightarrow> Inl (Propagated err)
      | Inr s \<Rightarrow> (case json_loads e s of Inl err \<Rightarrow> Inl (Propagated err) | Inr j \<Rightarrow> Inr j))"
  by (simp add: decode_loads_def loads_fst split: sum.splits)

lemma get_world: "snd (get e h w) = snd (load_url e (bb h) 
    (case username_user h of None \<Rightarrow> api_base @ ''user/'' | Some u \<Rightarrow> api_base @ ''teams/'' @ u)
    ''GET'' None w)"
  by (simp add: get_def Let_def decode_loads_world split: prod.splits sum.splits)


lemma get_repos_world: "username_user h = Some u \<Longrightarrow> snd (get_repos e h w) = snd (load_url e (bb h) 
    (api_base @ ''repositories/'' @ u @ ''?pagelen=100'') ''GET'' None w)"
  by (simp add: get_repos_def Let_def decode_loads_world split: prod.splits sum.splits)

lemma get_repos_fst: "username_user h = Some u \<Longrightarrow> fst (get_repos e h w) =
   (case fst (load_url e (bb h) (api_base @ ''repositories/'' @ u @ ''?pagelen=100'') ''GET'' None w)
    of Inl x \<Rightarrow> Inl x | Inr p \<Rightarrow> fst (decode_loads e p w))"
  by (simp add: get_repos_def Let_def decode_loads_fst split: prod.splits sum.splits)

lemma repositories_world: "snd (repositories e h w) = snd (get_repos e h w)"
  by (simp add: repositories_def split: prod.splits sum.splits)

lemma repositories_fst:
  "fst (repositories e h w) =
     (case fst (get_repos e h w) of Inl x \<Rightarrow> Inl x | Inr j \<Rightarrow> getitem j ''values'')"
  by (simp add: repositories_def split: prod.splits sum.splits)

subsection \<open>The authentication guard\<close>

lemma requires_authentication_eq:
  "requires_authentication name method self args w =
     (let c = (case self of Client r \<Rightarrow> clients w r | Delegate h \<Rightarrow> clients w (bb h))
      in if username c = [] \<or> password c = []
         then (Inl (AuthenticationRequired (name @ '' requires authentication'')), w)
         else method self args w)"
  by (cases self) (simp_all add: requires_authentication_def all_str2 Let_def)

text \<open>
  Claim C1. The operations \<^verbatim>\<open>emails\<close> and \<^verbatim>\<open>create_repo\<close>, called on a client or on a
  delegate whose credentials are those of the owning client: when the username or the
  password is empty, whatever the OAuth fields are, the call raises
  \<open>AuthenticationRequired\<close> with a message that names the operation and leaves the state
  as it was, so nothing was sent; when both are non-empty the call is the call of the
  undecorated method.
\<close>

theorem authentication_guard:
  assumes "c = (case self of Client r \<Rightarrow> clients w r | Delegate h \<Rightarrow> clients w (bb h))"
  shows "(username c = [] \<or> password c = [] \<longrightarrow>
            emails e self () w =
              (Inl (AuthenticationRequired ''emails requires authentication''), w) \<and>
            create_repo e self repo_data w =
              (Inl (AuthenticationRequired ''create_repo requires authentication''), w)) \<and>
         (username c \<noteq> [] \<and> password c \<noteq> [] \<longrightarrow>
            emails e self () w = emails_body e self () w \<and>
            create_repo e self repo_data w = create_repo_body e self repo_data w)"
  using assms
  by (simp add: emails_def create_repo_def requires_authentication_eq Let_def)

text \<open>The stand-in libraries accept a URL that needs no unwrapping and has no fragment.\<close>

lemma stub_Request:
  assumes "unwrap url = u \<and> CHR ''#'' \<notin> set u \<and> splittype u \<noteq> None"
  shows "Request stub_env url d hs = Inr (stub_request u d (add_headers hs) None)"
  using assms by (auto simp: Request_def splittag_def stub_env_def stub_request_def Let_def)

lemma stub_url_emails:
  "unwrap ''https://api.bitbucket.org/2.0/emails/'' = ''https://api.bitbucket.org/2.0/emails/'' \<and>
   CHR ''#'' \<notin> set ''https://api.bitbucket.org/2.0/emails/'' \<and>
   splittype ''https://api.bitbucket.org/2.0/emails/'' \<noteq> None"
  by code_simp

lemma stub_url_user:
  "unwrap ''https://api.bitbucket.org/2.0/user/'' = ''https://api.bitbucket.org/2.0/user/'' \<and>
   CHR ''#'' \<notin> set ''https://api.bitbucket.org/2.0/user/'' \<and>
   splittype ''https://api.bitbucket.org/2.0/user/'' \<noteq> None"
  by code_simp

lemma stub_url_repositories:
  "unwrap ''https://api.bitbucket.org/2.0/repositories/'' =
     ''https://api.bitbucket.org/2.0/repositories/'' \<and>
   CHR ''#'' \<notin> set ''https://api.bitbucket.org/2.0/repositories/'' \<and>
   splittype ''https://api.bitbucket.org/2.0/repositories/'' \<noteq> None"
  by code_simp

lemma stub_url_repositories_alice:
  "unwrap ''https://api.bitbucket.org/2.0/repositories/alice?pagelen=100'' =
     ''https://api.bitbucket.org/2.0/repositories/alice?pagelen=100'' \<and>
   CHR ''#'' \<notin> set ''https://api.bitbucket.org/2.0/repositories/alice?pagelen=100'' \<and>
   splittype ''https://api.bitbucket.org/2.0/repositories/alice?pagelen=100'' \<noteq> None"
  by code_simp




lemma init_world0:
  "BitBucket_init u p k s v world0 =
     (0, world0\<lparr>clients := (clients world0)(0 :=
            \<lparr>username = u, password = p, oauth_key = k, oauth_secret = s, verbose = v\<rparr>),
        next_ref := Suc 0\<rparr>)"
  by (simp add: BitBucket_init_def world0_def)

theorem authentication_guard_witness:
  "(let w = snd (BitBucket_init '''' ''secret'' ''key'' ''sec'' False world0)
    in username (clients w 0) = [] \<and> oauth_key (clients w 0) \<noteq> [] \<and> oauth_secret (clients w 0) \<noteq> [] \<and>
       emails stub_env (Client 0) () w =
         (Inl (AuthenticationRequired ''emails requires authentication''), w) \<and>
       create_repo stub_env (Client 0) [(''name'', ''r1'')] w =
         (Inl (AuthenticationRequired ''create_repo requires authentication''), w) \<and>
       emails stub_env (Delegate (user 0 None)) () w =
         (Inl (AuthenticationRequired ''emails requires authentication''), w)) \<and>
   (let w = snd (BitBucket_init ''alice'' ''secret'' '''' '''' False world0)
    in username (clients w 0) \<noteq> [] \<and> password (clients w 0) \<noteq> [] \<and>
       emails stub_env (Client 0) () w = emails_body stub_env (Client 0) () w \<and>
       fst (emails stub_env (Client 0) () w) = Inr stub_json \<and>
       map full_url (net (snd (emails stub_env (Client 0) () w))) =
         [''https://api.bitbucket.org/2.0/emails/''])"
proof -
  let ?w1 = "snd (BitBucket_init '''' ''secret'' ''key'' ''sec'' False world0)"
  let ?w2 = "snd (BitBucket_init ''alice'' ''secret'' '''' '''' False world0)"
  have a: "username (clients ?w1 0) = []" "oauth_key (clients ?w1 0) \<noteq> []"
    "oauth_secret (clients ?w1 0) \<noteq> []"
    by (simp_all add: init_world0)
  have b: "username (clients ?w2 0) \<noteq> []" "password (clients ?w2 0) \<noteq> []"
    by (simp_all add: init_world0)
  have c: "fst (emails_body stub_env (Client 0) () ?w2) = Inr stub_json \<and>
       map full_url (net (snd (emails_body stub_env (Client 0) () ?w2))) =
         [''https://api.bitbucket.org/2.0/emails/'']"
    by (simp add: BitBucket_init_def emails_body_def load_url_def build_request_def all_str2
          Let_def loads_def api_base_def api_toplevel_def world0_def
          stub_Request [OF stub_url_emails])
       (simp add: stub_env_def loads_def full_url_def stub_request_def)
  show ?thesis
    using a b c
      authentication_guard [where c = "clients ?w1 0" and self = "Client 0" and w = ?w1
        and e = stub_env and repo_data = "[(''name'', ''r1'')]"]
      authentication_guard [where c = "clients ?w1 0" and self = "Delegate (user 0 None)"
        and w = ?w1 and e = stub_env and repo_data = "[]"]
      authentication_guard [where c = "clients ?w2 0" and self = "Client 0" and w = ?w2
        and e = stub_env and repo_data = "[]"]
    by (simp add: Let_def user_def)
qed

subsection \<open>The test doubles at work\<close>

lemma client_world_0 [simp]:
  "clients (client_world u p k s v) 0 =
     \<lparr>username = u, password = p, oauth_key = k, oauth_secret = s, verbose = v\<rparr>"
  by (simp add: client_world_def init_world0)

lemma client_world_net [simp]: "net (client_world u p k s v) = []"
  by (simp add: client_world_def BitBucket_init_def world0_def)

lemma client_world_stdout [simp]: "stdout (client_world u p k s v) = []"
  by (simp add: client_world_def BitBucket_init_def world0_def)

lemma stub_build_basic:
  assumes "unwrap url = u \<and> CHR ''#'' \<notin> set u \<and> splittype u \<noteq> None"
  shows "build_request stub_env 0 url meth d (client_world ''alice'' ''pw'' [] [] v) =
     (Inr (stub_request u d [''Authorization'' \<mapsto> ''Basic YWxpY2U6cHc=''] (Some meth)),
      client_world ''alice'' ''pw'' [] [] v)"
  by (simp add: build_request_def all_str2 Let_def strip_b64encode b64_char_def b64_alphabet_def
        stub_Request [OF assms] add_headers_Authorization stub_request_def)

lemma stub_build_oauth:
  assumes "unwrap url = u \<and> CHR ''#'' \<notin> set u \<and> splittype u \<noteq> None"
  shows "build_request stub_env 0 url meth d (client_world n p ''key'' ''sec'' v) =
     (Inr (stub_request u d [''Authorization'' \<mapsto> ''OAuth oauth_consumer_key=key''] None),
      client_world n p ''key'' ''sec'' v)"
proof -
  have "oauthlib stub_env = Some oauth_stub"
    by (simp add: stub_env_def)
  then show ?thesis
    by (simp add: build_request_def all_str2 Let_def oauth_stub_def
          stub_Request [OF assms] add_headers_Authorization)
qed

lemma stub_build_none:
  assumes "unwrap url = u \<and> CHR ''#'' \<notin> set u \<and> splittype u \<noteq> None"
  shows "build_request stub_env 0 url meth d (client_world [] [] [] [] v) =
     (Inr (stub_request u None Map.empty None), client_world [] [] [] [] v)"
  by (simp add: build_request_def all_str2 Let_def stub_Request [OF assms] add_headers_Nil)

lemma Request_empty_url: "Request e [] d hs = Inl (ValueError ''unknown url type'')"
  by (simp add: Request_def unwrap_def strip_def splittag_def splittype_def Let_def)

subsection \<open>What the methods leave in the store\<close>

lemma emails_body_world:
  "snd (emails_body e (Client r) a w) =
   snd (load_url e r (api_base @ ''emails/'') ''GET'' None w)"
  by (cases "load_url e r (api_base @ ''emails/'') ''GET'' None w")
     (auto simp: emails_body_def Let_def loads_world split: sum.splits)

lemma create_repo_body_world:
  "urlencode e rd = Inr body \<Longrightarrow>
   snd (create_repo_body e (Client r) rd w) =
   snd (load_url e r (api_base @ ''repositories/'') ''POST'' (Some body) w)"
  by (cases "load_url e r (api_base @ ''repositories/'') ''POST'' (Some body) w")
     (auto simp: create_repo_body_def Let_def loads_world split: sum.splits)

lemma emails_store:
  "clients (snd (emails e self () w)) = clients w \<and>
   next_ref (snd (emails e self () w)) = next_ref w"
proof (cases self)
  case (Client r)
  show ?thesis
    by (simp add: emails_def requires_authentication_eq Client Let_def emails_body_world
          load_url_clients load_url_next_ref)
next
  case (Delegate h)
  then show ?thesis
    by (simp add: emails_def requires_authentication_eq emails_body_def Let_def)
qed

lemma create_repo_store:
  "clients (snd (create_repo e self rd w)) = clients w \<and>
   next_ref (snd (create_repo e self rd w)) = next_ref w"
proof (cases self)
  case (Client r)
  show ?thesis
  proof (cases "urlencode e rd")
    case (Inl err)
    then show ?thesis
      by (simp add: create_repo_def requires_authentication_eq create_repo_body_def Client Let_def)
  next
    case (Inr body)
    show ?thesis
      by (simp add: create_repo_def requires_authentication_eq Client Let_def
            create_repo_body_world [OF Inr] load_url_clients load_url_next_ref)
  qed
next
  case (Delegate h)
  then show ?thesis
    by (simp add: create_repo_def requires_authentication_eq create_repo_body_def Let_def)
qed

lemma get_store:
  "clients (snd (get e h w)) = clients w \<and> next_ref (snd (get e h w)) = next_ref w"
  by (simp add: get_world load_url_clients load_url_next_ref)

lemma get_repos_store:
  "clients (snd (get_repos e h w)) = clients w \<and> next_ref (snd (get_repos e h w)) = next_ref w"
proof (cases "username_user h")
  case None
  then show ?thesis by (simp add: get_repos_def)
next
  case (Some u)
  then show ?thesis
    by (simp add: get_repos_world [OF Some] load_url_clients load_url_next_ref)
qed

lemma repositories_store:
  "clients (snd (repositories e h w)) = clients w \<and>
   next_ref (snd (repositories e h w)) = next_ref w"
  by (simp add: repositories_world get_repos_store)

lemma perform_store:
  assumes "\<forall>u p k s v. c \<noteq> New u p k s v"
  shows "clients (perform (e, c) w) = clients w \<and> next_ref (perform (e, c) w) = next_ref w"
  using assms
  by (cases c)
     (auto simp: build_request_clients build_request_next_ref load_url_clients
        load_url_next_ref emails_store create_repo_store get_store get_repos_store
        repositories_store)

lemma perform_keeps:
  assumes "r < next_ref w"
  shows "r < next_ref (perform ec w) \<and> clients (perform ec w) r = clients w r"
proof (cases ec)
  case (Pair e c)
  show ?thesis
  proof (cases "\<exists>u p k s v. c = New u p k s v")
    case True
    then show ?thesis
      using assms by (auto simp: Pair BitBucket_init_def)
  next
    case False
    then show ?thesis
      using assms perform_store [of c e w] by (simp add: Pair)
  qed
qed

lemma fold_perform_keeps:
  "r < next_ref w \<Longrightarrow> clients (fold perform calls w) r = clients w r"
proof (induction calls arbitrary: w)
  case Nil
  then show ?case by simp
next
  case (Cons ec calls)
  have "r < next_ref (perform ec w)" "clients (perform ec w) r = clients w r"
    using perform_keeps [OF Cons.prems] by simp_all
  then show ?case
    using Cons.IH [of "perform ec w"] by simp
qed



subsection \<open>The authentication header\<close>

text \<open>
  Claim C2, as amended. When the username and the password are both non-empty and the
  OAuth key or the OAuth secret is empty: for every URL that the constructor of a request
  accepts, and every method and body, \<^verbatim>\<open>build_request\<close> returns a request whose
  \<^verbatim>\<open>Authorization\<close> header is \<^verbatim>\<open>Basic\<close> followed by the Base64 text of \<^verbatim>\<open>username:password\<close>; for
  every other URL it raises what the constructor raises, a \<^verbatim>\<open>ValueError\<close> when the text has
  no scheme. (\<^verbatim>\<open>strip\<close> changes nothing in a Base64 text.)
\<close>

theorem build_request_basic_header:
  assumes "c = clients w self"
    and "username c \<noteq> []" and "password c \<noteq> []"
    and "oauth_key c = [] \<or> oauth_secret c = []"
  shows "(\<forall>r. Request e url None [] = Inr r \<longrightarrow>
            (\<exists>req. build_request e self url meth d w = (Inr req, w) \<and>
               headers req ''Authorization'' =
                 Some (''Basic '' @ b64encode (username c @ '':'' @ password c)))) \<and>
         (\<forall>x. Request e url None [] = Inl x \<longrightarrow>
            build_request e self url meth d w = (Inl x, w)) \<and>
         (\<forall>req w'. build_request e self url meth d w = (Inr req, w') \<longrightarrow>
            headers req ''Authorization'' =
              Some (''Basic '' @ b64encode (username c @ '':'' @ password c)))"
proof -
  let ?hs = "[(''Authorization'',
               ''Basic '' @ b64encode (username c @ '':'' @ password c))]"
  have b: "build_request e self url meth d w =
             (case Request e url d ?hs of
                Inl x \<Rightarrow> (Inl x, w)
              | Inr r \<Rightarrow> (Inr (r\<lparr>get_method_attr := Some meth\<rparr>), w))"
    using assms by (auto simp: build_request_def all_str2 Let_def strip_b64encode)
  have a: "add_headers ?hs ''Authorization'' =
             Some (''Basic '' @ b64encode (username c @ '':'' @ password c))"
    by (simp add: add_headers_Authorization)
  show ?thesis
  proof (cases "Request e url None []")
    case (Inl x)
    then have "Request e url d ?hs = Inl x"
      using Request_args [of e url d ?hs] by simp
    then show ?thesis
      using Inl b by simp
  next
    case (Inr r0)
    then have "Request e url d ?hs = Inr (r0\<lparr>data := d, headers := add_headers ?hs\<rparr>)"
      using Request_args [of e url d ?hs] by simp
    then have "build_request e self url meth d w =
        (Inr (r0\<lparr>data := d, headers := add_headers ?hs, get_method_attr := Some meth\<rparr>), w)"
      using b by simp
    then show ?thesis
      using Inr a by simp
  qed
qed

theorem build_request_basic_header_witness:
  "username (clients (client_world ''alice'' ''secret'' [] ''sec'' False) 0) \<noteq> [] \<and>
   password (clients (client_world ''alice'' ''secret'' [] ''sec'' False) 0) \<noteq> [] \<and>
   oauth_key (clients (client_world ''alice'' ''secret'' [] ''sec'' False) 0) = [] \<and>
   (\<exists>req. build_request stub_env 0 ''https://api.bitbucket.org/2.0/user/'' ''GET'' None
            (client_world ''alice'' ''secret'' [] ''sec'' False) =
            (Inr req, client_world ''alice'' ''secret'' [] ''sec'' False) \<and>
          headers req ''Authorization'' = Some ''Basic YWxpY2U6c2VjcmV0'')"
proof -
  let ?w = "client_world ''alice'' ''secret'' [] ''sec'' False"
  have a: "username (clients ?w 0) \<noteq> []" "password (clients ?w 0) \<noteq> []"
    "oauth_key (clients ?w 0) = [] \<or> oauth_secret (clients ?w 0) = []"
    by simp_all
  have r: "Request stub_env ''https://api.bitbucket.org/2.0/user/'' None [] =
             Inr (stub_request ''https://api.bitbucket.org/2.0/user/'' None (add_headers []) None)"
    by (rule stub_Request [OF stub_url_user])
  show ?thesis
    using build_request_basic_header [OF refl a, of stub_env
        "''https://api.bitbucket.org/2.0/user/''" "''GET''" None, THEN conjunct1, rule_format, OF r]
    by (simp add: b64_char_def b64_alphabet_def)
qed

text \<open>
  The claim as it was stated puts no condition on the OAuth fields and none on the URL.
  With all four fields set the OAuth branch is taken first, and the header is the
  signer's; with the empty text for the URL no request is returned.
\<close>

theorem build_request_basic_header_counterexample:
  "username (clients (client_world ''alice'' ''secret'' ''key'' ''sec'' False) 0) \<noteq> [] \<and>
   password (clients (client_world ''alice'' ''secret'' ''key'' ''sec'' False) 0) \<noteq> [] \<and>
   build_request stub_env 0 ''https://api.bitbucket.org/2.0/user/'' ''GET'' None
     (client_world ''alice'' ''secret'' ''key'' ''sec'' False) =
     (Inr (stub_request ''https://api.bitbucket.org/2.0/user/'' None
             [''Authorization'' \<mapsto> ''OAuth oauth_consumer_key=key''] None),
      client_world ''alice'' ''secret'' ''key'' ''sec'' False) \<and>
   headers (stub_request ''https://api.bitbucket.org/2.0/user/'' None
             [''Authorization'' \<mapsto> ''OAuth oauth_consumer_key=key''] None) ''Authorization'' \<noteq>
     Some (''Basic '' @ b64encode (''alice'' @ '':'' @ ''secret'')) \<and>
   username (clients (client_world ''alice'' ''secret'' [] [] False) 0) \<noteq> [] \<and>
   password (clients (client_world ''alice'' ''secret'' [] [] False) 0) \<noteq> [] \<and>
   build_request stub_env 0 [] ''GET'' None (client_world ''alice'' ''secret'' [] [] False) =
     (Inl (ValueError ''unknown url type''), client_world ''alice'' ''secret'' [] [] False)"
proof -
  have 1: "build_request stub_env 0 [] ''GET'' None (client_world ''alice'' ''secret'' [] [] False) =
     (Inl (ValueError ''unknown url type''), client_world ''alice'' ''secret'' [] [] False)"
    by (simp add: build_request_def all_str2 Let_def Request_empty_url)
  have 2: "headers (stub_request ''https://api.bitbucket.org/2.0/user/'' None
             [''Authorization'' \<mapsto> ''OAuth oauth_consumer_key=key''] None) ''Authorization'' \<noteq>
     Some (''Basic '' @ b64encode (''alice'' @ '':'' @ ''secret''))"
    by (simp add: stub_request_def)
  show ?thesis
    using 1 2 stub_build_oauth [OF stub_url_user, of "''GET''" None "''alice''" "''secret''" False]
    by simp
qed

text \<open>
  Claim C3. \<^verbatim>\<open>build_request\<close> takes the first scheme that is configured, OAuth before Basic
  before none. A request that it returns is, in the OAuth case, what the constructor
  returns for the URL, the body and the headers of the signer, and its headers are the
  signer's, with nothing of the username or the password; in the Basic case what the
  constructor returns for the URL, the body and the one \<^verbatim>\<open>Basic\<close> header, with the method
  assigned, and its headers are that one header, with nothing of the signer; otherwise
  what the constructor returns for the URL alone, with no header. A request is returned
  whenever the constructor accepts the URL and, with OAuth configured, the signer
  answers. With none of the four fields set a returned request has no \<^verbatim>\<open>Authorization\<close>
  header.
\<close>

theorem build_request_scheme:
  assumes "c = clients w self"
  shows "(\<forall>req w'. build_request e self url meth d w = (Inr req, w') \<longrightarrow>
            w' = w \<and>
            (if all_str [oauth_key c, oauth_secret c] then
               (\<exists>sign uri hs body. oauthlib e = Some sign \<and>
                   sign (oauth_key c) (oauth_secret c) url = Inr (uri, hs, body) \<and>
                   Request e url d hs = Inr req \<and> headers req = add_headers hs \<and>
                   get_method_attr req = None)
             else if all_str [username c, password c] then
               (\<exists>r. Request e url d
                        [(''Authorization'',
                          ''Basic '' @ b64encode (username c @ '':'' @ password c))] = Inr r \<and>
                    req = r\<lparr>get_method_attr := Some meth\<rparr>) \<and>
               headers req =
                 [''Authorization'' \<mapsto>
                    ''Basic '' @ b64encode (username c @ '':'' @ password c)] \<and>
               get_method_attr req = Some meth
             else Request e url None [] = Inr req \<and> headers req = Map.empty \<and>
                  get_method_attr req = None)) \<and>
         (\<forall>sign uri hs body r.
            all_str [oauth_key c, oauth_secret c] \<and> oauthlib e = Some sign \<and>
            sign (oauth_key c) (oauth_secret c) url = Inr (uri, hs, body) \<and>
            Request e url None [] = Inr r \<longrightarrow>
            (\<exists>req. build_request e self url meth d w = (Inr req, w))) \<and>
         (\<forall>r. \<not> all_str [oauth_key c, oauth_secret c] \<and> Request e url None [] = Inr r \<longrightarrow>
            (\<exists>req. build_request e self url meth d w = (Inr req, w))) \<and>
         (\<forall>req w'. username c = [] \<and> password c = [] \<and> oauth_key c = [] \<and> oauth_secret c = [] \<and>
            build_request e self url meth d w = (Inr req, w') \<longrightarrow>
            headers req ''Authorization'' = None)"
proof -
  have args: "Request e url d' hs' =
             (case Request e url None [] of
                Inl x \<Rightarrow> Inl x
              | Inr r \<Rightarrow> Inr (r\<lparr>data := d', headers := add_headers hs'\<rparr>))" for d' hs'
    by (rule Request_args)
  have 1: "w' = w \<and>
            (if all_str [oauth_key c, oauth_secret c] then
               (\<exists>sign uri hs body. oauthlib e = Some sign \<and>
                   sign (oauth_key c) (oauth_secret c) url = Inr (uri, hs, body) \<and>
                   Request e url d hs = Inr req \<and> headers req = add_headers hs \<and>
                   get_method_attr req = None)
             else if all_str [username c, password c] then
               (\<exists>r. Request e url d
                        [(''Authorization'',
                          ''Basic '' @ b64encode (username c @ '':'' @ password c))] = Inr r \<and>
                    req = r\<lparr>get_method_attr := Some meth\<rparr>) \<and>
               headers req =
                 [''Authorization'' \<mapsto>
                    ''Basic '' @ b64encode (username c @ '':'' @ password c)] \<and>
               get_method_attr req = Some meth
             else Request e url None [] = Inr req \<and> headers req = Map.empty \<and>
                  get_method_attr req = None)"
    if t: "build_request e self url meth d w = (Inr req, w')" for req w'
  proof -
    let ?c = "clients w self"
    consider (oauth) "all_str [oauth_key ?c, oauth_secret ?c]"
      | (basic) "\<not> all_str [oauth_key ?c, oauth_secret ?c]" "all_str [username ?c, password ?c]"
      | (none) "\<not> all_str [oauth_key ?c, oauth_secret ?c]"
          "\<not> all_str [username ?c, password ?c]"
      by blast
    then show ?thesis
    proof cases
      case oauth
      obtain sign uri hs body where g: "oauthlib e = Some sign"
        "sign (oauth_key ?c) (oauth_secret ?c) url = Inr (uri, hs, body)"
        "Request e url d hs = Inr req" "w' = w"
        using build_request_oauth_Inr [OF oauth t] by blast
      show ?thesis
        using oauth g Request_fields [OF g(3)] assms by auto
    next
      case basic
      obtain r where g: "Request e url d
          [(''Authorization'', ''Basic '' @ b64encode (username ?c @ '':'' @ password ?c))] = Inr r"
        "req = r\<lparr>get_method_attr := Some meth\<rparr>" "w' = w"
        using build_request_basic_Inr [OF basic t] by blast
      show ?thesis
        using basic g Request_fields [OF g(1)] assms
        by (auto simp: add_headers_Authorization)
    next
      case none
      have g: "Request e url None [] = Inr req" "w' = w"
        using build_request_none_Inr [OF none t] by simp_all
      show ?thesis
        using none g Request_fields [OF g(1)] assms by (auto simp: add_headers_Nil)
    qed
  qed
  have acc: "\<exists>r'. Request e url d' hs' = Inr r'"
    if "Request e url None [] = Inr r" for d' hs' r
    using that args [of d' hs'] by simp
  have 2: "\<exists>req. build_request e self url meth d w = (Inr req, w)"
    if h: "all_str [oauth_key c, oauth_secret c] \<and> oauthlib e = Some sign \<and>
        sign (oauth_key c) (oauth_secret c) url = Inr (uri, hs, body) \<and>
        Request e url None [] = Inr r" for sign uri hs body r
  proof -
    obtain r' where "Request e url d hs = Inr r'"
      using acc h by blast
    then show ?thesis
      using h assms by (simp add: build_request_def Let_def)
  qed
  have 3: "\<exists>req. build_request e self url meth d w = (Inr req, w)"
    if h: "\<not> all_str [oauth_key c, oauth_secret c] \<and> Request e url None [] = Inr r" for r
  proof -
    obtain r' where "Request e url d
        [(''Authorization'',
          ''Basic '' @ strip (b64encode (username c @ '':'' @ password c)))] = Inr r'"
      using acc h by blast
    then show ?thesis
      using h assms by (simp add: build_request_def Let_def)
  qed
  have 4: "headers req ''Authorization'' = None"
    if "username c = [] \<and> password c = [] \<and> oauth_key c = [] \<and> oauth_secret c = [] \<and>
        build_request e self url meth d w = (Inr req, w')" for req w'
    using that 1 [of req w'] by (simp add: all_str2)
  show ?thesis
    using 1 2 3 4 by blast
qed

theorem build_request_scheme_witness:
  "build_request stub_env 0 ''https://api.bitbucket.org/2.0/user/'' ''GET'' None
     (client_world ''alice'' ''pw'' ''key'' ''sec'' False) =
     (Inr (stub_request ''https://api.bitbucket.org/2.0/user/'' None
             [''Authorization'' \<mapsto> ''OAuth oauth_consumer_key=key''] None),
      client_world ''alice'' ''pw'' ''key'' ''sec'' False) \<and>
   build_request stub_env 0 ''https://api.bitbucket.org/2.0/user/'' ''GET'' None
     (client_world ''alice'' ''pw'' [] [] False) =
     (Inr (stub_request ''https://api.bitbucket.org/2.0/user/'' None
             [''Authorization'' \<mapsto> ''Basic YWxpY2U6cHc=''] (Some ''GET'')),
      client_world ''alice'' ''pw'' [] [] False) \<and>
   build_request stub_env 0 ''https://api.bitbucket.org/2.0/user/'' ''GET'' None
     (client_world [] [] [] [] False) =
     (Inr (stub_request ''https://api.bitbucket.org/2.0/user/'' None Map.empty None),
      client_world [] [] [] [] False) \<and>
   headers (stub_request ''https://api.bitbucket.org/2.0/user/'' None Map.empty None)
     ''Authorization'' = None"
proof -
  let ?w = "client_world [] [] [] [] False"
  let ?r = "stub_request ''https://api.bitbucket.org/2.0/user/'' None Map.empty None"
  have b: "build_request stub_env 0 ''https://api.bitbucket.org/2.0/user/'' ''GET'' None ?w =
             (Inr ?r, ?w)"
    by (rule stub_build_none [OF stub_url_user])
  have c: "username (clients ?w 0) = [] \<and> password (clients ?w 0) = [] \<and>
           oauth_key (clients ?w 0) = [] \<and> oauth_secret (clients ?w 0) = [] \<and>
           build_request stub_env 0 ''https://api.bitbucket.org/2.0/user/'' ''GET'' None ?w =
             (Inr ?r, ?w)"
    using b by simp
  have "headers ?r ''Authorization'' = None"
    using build_request_scheme [OF refl, of stub_env 0 "''https://api.bitbucket.org/2.0/user/''"
        "''GET''" None ?w, THEN conjunct2, THEN conjunct2, THEN conjunct2, rule_format, OF c] .
  then show ?thesis
    using b by (simp add: stub_build_basic [OF stub_url_user] stub_build_oauth [OF stub_url_user])
qed

text \<open>
  Claim C7. In the OAuth branch the attribute \<^verbatim>\<open>get_method\<close> is not assigned: the method of
  the request is the one \<^verbatim>\<open>urllib\<close> derives from the body, and the request is the same
  whatever the argument \<^verbatim>\<open>method\<close> was. In the Basic branch the method of the request is
  the argument.
\<close>

theorem oauth_method_not_forced:
  assumes "c = clients w self"
    and "build_request e self url meth d w = (Inr req, w')"
  shows "(oauth_key c \<noteq> [] \<and> oauth_secret c \<noteq> [] \<longrightarrow>
            get_method_attr req = None \<and>
            get_method req = (if d \<noteq> None then ''POST'' else ''GET'') \<and>
            build_request e self url meth' d w = (Inr req, w')) \<and>
         ((oauth_key c = [] \<or> oauth_secret c = []) \<and> username c \<noteq> [] \<and> password c \<noteq> [] \<longrightarrow>
            get_method_attr req = Some meth \<and> get_method req = meth)"
proof -
  have 1: "get_method_attr req = None \<and>
            get_method req = (if d \<noteq> None then ''POST'' else ''GET'') \<and>
            build_request e self url meth' d w = (Inr req, w')"
    if o: "oauth_key c \<noteq> [] \<and> oauth_secret c \<noteq> []"
  proof -
    have s: "all_str [oauth_key (clients w self), oauth_secret (clients w self)]"
      using o assms(1) by (simp add: all_str2)
    obtain sign uri hs body where g: "oauthlib e = Some sign"
      "sign (oauth_key (clients w self)) (oauth_secret (clients w self)) url = Inr (uri, hs, body)"
      "Request e url d hs = Inr req" "w' = w"
      using build_request_oauth_Inr [OF s assms(2)] by blast
    have f: "data req = d" "get_method_attr req = None"
      using Request_fields [OF g(3)] by simp_all
    have "build_request e self url meth' d w = (Inr req, w')"
      using s g by (simp add: build_request_def Let_def)
    then show ?thesis
      using f by (simp add: get_method_def)
  qed
  have 2: "get_method_attr req = Some meth \<and> get_method req = meth"
    if b: "(oauth_key c = [] \<or> oauth_secret c = []) \<and> username c \<noteq> [] \<and> password c \<noteq> []"
  proof -
    have s: "\<not> all_str [oauth_key (clients w self), oauth_secret (clients w self)]"
      "all_str [username (clients w self), password (clients w self)]"
      using b assms(1) by (auto simp: all_str2)
    obtain r where "req = r\<lparr>get_method_attr := Some meth\<rparr>"
      using build_request_basic_Inr [OF s assms(2)] by blast
    then show ?thesis
      by (simp add: get_method_def)
  qed
  show ?thesis
    using 1 2 by blast
qed

theorem oauth_method_not_forced_witness:
  "build_request stub_env 0 ''https://api.bitbucket.org/2.0/repositories/'' ''DELETE'' None
     (client_world ''alice'' ''pw'' ''key'' ''sec'' False) =
     (Inr (stub_request ''https://api.bitbucket.org/2.0/repositories/'' None
             [''Authorization'' \<mapsto> ''OAuth oauth_consumer_key=key''] None),
      client_world ''alice'' ''pw'' ''key'' ''sec'' False) \<and>
   get_method (stub_request ''https://api.bitbucket.org/2.0/repositories/'' None
             [''Authorization'' \<mapsto> ''OAuth oauth_consumer_key=key''] None) = ''GET'' \<and>
   build_request stub_env 0 ''https://api.bitbucket.org/2.0/repositories/'' ''POST'' None
     (client_world ''alice'' ''pw'' ''key'' ''sec'' False) =
     (Inr (stub_request ''https://api.bitbucket.org/2.0/repositories/'' None
             [''Authorization'' \<mapsto> ''OAuth oauth_consumer_key=key''] None),
      client_world ''alice'' ''pw'' ''key'' ''sec'' False) \<and>
   get_method (stub_request ''https://api.bitbucket.org/2.0/repositories/'' None
              [''Authorization'' \<mapsto> ''Basic YWxpY2U6cHc=''] (Some ''DELETE'')) = ''DELETE''"
  using
    oauth_method_not_forced [where c = "clients (client_world ''alice'' ''pw'' ''key'' ''sec'' False) 0"
      and w = "client_world ''alice'' ''pw'' ''key'' ''sec'' False" and self = 0 and e = stub_env
      and url = "''https://api.bitbucket.org/2.0/repositories/''" and meth = "''DELETE''"
      and d = None and meth' = "''POST''", OF refl stub_build_oauth [OF stub_url_repositories]]
    oauth_method_not_forced [where c = "clients (client_world ''alice'' ''pw'' [] [] False) 0"
      and w = "client_world ''alice'' ''pw'' [] [] False" and self = 0 and e = stub_env
      and url = "''https://api.bitbucket.org/2.0/repositories/''" and meth = "''DELETE''"
      and d = None and meth' = "''POST''", OF refl stub_build_basic [OF stub_url_repositories]]
  by (simp add: stub_build_oauth [OF stub_url_repositories])

subsection \<open>The URLs of the module\<close>

text \<open>
  The URLs that the methods format start with \<^verbatim>\<open>https://\<close>: unwrapping such a text removes
  the white space at its end and nothing else.
\<close>

lemma dropWhile_append_keep:
  "ys \<noteq> [] \<Longrightarrow> \<not> P (hd ys) \<Longrightarrow> dropWhile P (xs @ ys) = dropWhile P xs @ ys"
  by (induction xs) (auto simp: dropWhile_none neq_Nil_conv)

lemma strip_http:
  "strip (CHR ''h'' # CHR ''t'' # CHR ''t'' # CHR ''p'' # s) =
     CHR ''h'' # CHR ''t'' # CHR ''t'' # CHR ''p'' # rev (dropWhile isspace (rev s))"
proof -
  have 1: "dropWhile isspace (CHR ''h'' # CHR ''t'' # CHR ''t'' # CHR ''p'' # s) =
             CHR ''h'' # CHR ''t'' # CHR ''t'' # CHR ''p'' # s"
    by (simp add: isspace_def)
  have 2: "rev (CHR ''h'' # CHR ''t'' # CHR ''t'' # CHR ''p'' # s) = rev s @ ''ptth''"
    by simp
  have 3: "dropWhile isspace (rev s @ ''ptth'') = dropWhile isspace (rev s) @ ''ptth''"
    by (rule dropWhile_append_keep) (simp_all add: isspace_def)
  have "strip (CHR ''h'' # CHR ''t'' # CHR ''t'' # CHR ''p'' # s) =
          rev (dropWhile isspace (rev s) @ ''ptth'')"
    unfolding strip_def 1 2 3 ..
  then show ?thesis
    by simp
qed

lemma unwrap_http:
  "unwrap (CHR ''h'' # CHR ''t'' # CHR ''t'' # CHR ''p'' # s) =
     strip (CHR ''h'' # CHR ''t'' # CHR ''t'' # CHR ''p'' # s)"
  by (simp add: unwrap_def strip_http Let_def)

lemma normal_url_http:
  "normal_url (CHR ''h'' # CHR ''t'' # CHR ''t'' # CHR ''p'' # s) =
     (let t = strip (CHR ''h'' # CHR ''t'' # CHR ''t'' # CHR ''p'' # s)
      in if last t = CHR ''#'' then butlast t else t)"
  by (simp add: normal_url_def unwrap_http Let_def strip_http)

lemma strip_ends:
  assumes "s \<noteq> []" "\<not> isspace (hd s)" "\<not> isspace (last s)"
  shows "strip s = s"
proof -
  have 1: "dropWhile isspace s = s"
    using assms(1,2) by (cases s) simp_all
  have "rev s \<noteq> []" "\<not> isspace (hd (rev s))"
    using assms(1,3) by (simp_all add: hd_rev)
  then have 2: "dropWhile isspace (rev s) = rev s"
    by (cases "rev s") simp_all
  show ?thesis
    unfolding strip_def 1 2 by simp
qed

lemma normal_url_repositories:
  "normal_url (''https://api.bitbucket.org/2.0/repositories/'' @ u @ ''?pagelen=100'') =
     ''https://api.bitbucket.org/2.0/repositories/'' @ u @ ''?pagelen=100''"
proof -
  let ?s = "''s://api.bitbucket.org/2.0/repositories/'' @ u @ ''?pagelen=100''"
  have e: "''https://api.bitbucket.org/2.0/repositories/'' @ u @ ''?pagelen=100'' =
             CHR ''h'' # CHR ''t'' # CHR ''t'' # CHR ''p'' # ?s"
    by simp
  have l: "last (CHR ''h'' # CHR ''t'' # CHR ''t'' # CHR ''p'' # ?s) = CHR ''0''"
    by simp
  have "strip (CHR ''h'' # CHR ''t'' # CHR ''t'' # CHR ''p'' # ?s) =
          CHR ''h'' # CHR ''t'' # CHR ''t'' # CHR ''p'' # ?s"
    by (rule strip_ends) (simp_all add: isspace_def)
  then have "normal_url (CHR ''h'' # CHR ''t'' # CHR ''t'' # CHR ''p'' # ?s) =
          CHR ''h'' # CHR ''t'' # CHR ''t'' # CHR ''p'' # ?s"
    unfolding normal_url_http Let_def l by simp
  then show ?thesis
    unfolding e .
qed

subsection \<open>The methods of \<^verbatim>\<open>User\<close>\<close>

text \<open>
  Claim C4. On a handle whose username is \<^verbatim>\<open>None\<close>, \<^verbatim>\<open>get_repos\<close> raises the exception with
  the message \<^verbatim>\<open>username missing\<close> and leaves the state as it was: nothing was sent.
\<close>

theorem get_repos_missing_username:
  "get_repos e \<lparr>bb = r, username_user = None\<rparr> w = (Inl (PyException ''username missing''), w)"
  by (simp add: get_repos_def)

theorem get_repos_missing_username_witness:
  "get_repos stub_env (user 0 None) (client_world ''alice'' ''pw'' [] [] False) =
     (Inl (PyException ''username missing''), client_world ''alice'' ''pw'' [] [] False) \<and>
   net (snd (get_repos stub_env (user 0 None) (client_world ''alice'' ''pw'' [] [] False))) = []"
  using get_repos_missing_username [of stub_env 0 "client_world ''alice'' ''pw'' [] [] False"]
  by (simp add: user_def)

text \<open>
  Claim C5. On a handle with the username \<open>u\<close>, when the request can be built (as it
  always can unless OAuth is configured and the signer is missing or fails),
  \<^verbatim>\<open>get_repos\<close> sends exactly one request, a \<^verbatim>\<open>GET\<close> of
  \<^verbatim>\<open>https://api.bitbucket.org/2.0/repositories/u?pagelen=100\<close>, and returns the payload decoded
  as UTF-8 and parsed as JSON; \<^verbatim>\<open>repositories\<close> does the same and returns the item
  \<^verbatim>\<open>values\<close> of that result.
\<close>

theorem get_repos_request:
  assumes "username_user h = Some u"
    and "url = ''https://api.bitbucket.org/2.0/repositories/'' @ u @ ''?pagelen=100''"
    and "fst (build_request e (bb h) url ''GET'' None w) = Inr req"
  shows "full_url req = url \<and> get_method req = ''GET'' \<and>
         net (snd (get_repos e h w)) = net w @ [req] \<and>
         fst (get_repos e h w) =
           (case urlopen_read e req of
              Inl err \<Rightarrow> Inl (Propagated err)
            | Inr payload \<Rightarrow>
                (case utf8_decode e payload of
                   Inl err \<Rightarrow> Inl (Propagated err)
                 | Inr s \<Rightarrow>
                     (case json_loads e s of
                        Inl err \<Rightarrow> Inl (Propagated err)
                      | Inr j \<Rightarrow> Inr j))) \<and>
         snd (repositories e h w) = snd (get_repos e h w) \<and>
         fst (repositories e h w) =
           (case fst (get_repos e h w) of Inl x \<Rightarrow> Inl x | Inr j \<Rightarrow> getitem j ''values'') \<and>
         (\<forall>kvs v. fst (get_repos e h w) = Inr (JObject kvs) \<and> map_of kvs ''values'' = Some v \<longrightarrow>
            fst (repositories e h w) = Inr v)"
proof -
  have u: "api_base @ ''repositories/'' @ u @ ''?pagelen=100'' = url"
    using assms(2) by (simp add: api_base_def api_toplevel_def)
  have b': "build_request e (bb h) url ''GET'' None w = (Inr req, w)"
    using assms(3) by (simp add: build_request_fst_Inr)
  have "normal_url url = url"
    unfolding assms(2) by (rule normal_url_repositories)
  then have 1: "full_url req = url \<and> get_method req = ''GET''"
    using build_request_url [OF b'] build_request_GET [OF b'] by simp
  have gw: "snd (get_repos e h w) = snd (load_url e (bb h) url ''GET'' None w)"
    using get_repos_world [OF assms(1), of e w] by (simp only: u)
  have gf: "fst (get_repos e h w) =
     (case fst (load_url e (bb h) url ''GET'' None w)
      of Inl x \<Rightarrow> Inl x | Inr p \<Rightarrow> fst (decode_loads e p w))"
    using get_repos_fst [OF assms(1), of e w] by (simp only: u)
  have 2: "net (snd (get_repos e h w)) = net w @ [req]"
    using load_url_built(1) [OF assms(3)] by (simp add: gw)
  have 3: "fst (get_repos e h w) =
           (case urlopen_read e req of
              Inl err \<Rightarrow> Inl (Propagated err)
            | Inr payload \<Rightarrow>
                (case utf8_decode e payload of
                   Inl err \<Rightarrow> Inl (Propagated err)
                 | Inr s \<Rightarrow>
                     (case json_loads e s of
                        Inl err \<Rightarrow> Inl (Propagated err)
                      | Inr j \<Rightarrow> Inr j)))"
    using load_url_built(2) [OF assms(3)]
    by (simp add: gf decode_loads_fst split: sum.splits)
  have 4: "fst (repositories e h w) = Inr v"
    if "fst (get_repos e h w) = Inr (JObject kvs) \<and> map_of kvs ''values'' = Some v" for kvs v
    using that by (simp add: repositories_fst getitem_def)
  show ?thesis
    using 1 2 3 4 by (simp add: repositories_world repositories_fst)
qed

theorem get_repos_request_witness:
  "net (snd (get_repos stub_env (user 0 (Some ''alice'')) (client_world ''alice'' ''pw'' [] [] False))) =
     [stub_request ''https://api.bitbucket.org/2.0/repositories/alice?pagelen=100'' None
         [''Authorization'' \<mapsto> ''Basic YWxpY2U6cHc=''] (Some ''GET'')] \<and>
   fst (get_repos stub_env (user 0 (Some ''alice'')) (client_world ''alice'' ''pw'' [] [] False)) =
     Inr (JObject [(''values'', JArray [JObject [(''name'', JString ''r1'')]]),
                   (''pagelen'', JNumber 100)]) \<and>
   fst (repositories stub_env (user 0 (Some ''alice'')) (client_world ''alice'' ''pw'' [] [] False)) =
     Inr (JArray [JObject [(''name'', JString ''r1'')]])"
proof -
  let ?w = "client_world ''alice'' ''pw'' [] [] False"
  let ?url = "''https://api.bitbucket.org/2.0/repositories/'' @ ''alice'' @ ''?pagelen=100''"
  let ?req = "stub_request ''https://api.bitbucket.org/2.0/repositories/alice?pagelen=100'' None
         [''Authorization'' \<mapsto> ''Basic YWxpY2U6cHc=''] (Some ''GET'')"
  have b: "fst (build_request stub_env (bb (user 0 (Some ''alice''))) ?url ''GET'' None ?w) = Inr ?req"
    using stub_build_basic [OF stub_url_repositories_alice, of "''GET''" None False]
    by (simp add: user_def)
  have u: "username_user (user 0 (Some ''alice'')) = Some ''alice''"
    by (simp add: user_def)
  have r: "urlopen_read stub_env x = Inr stub_payload" "utf8_decode stub_env y = Inr y"
    "json_loads stub_env stub_payload = Inr stub_json" for x y
    by (simp_all add: stub_env_def)
  show ?thesis
    using get_repos_request [OF u refl b]
    by (simp add: r stub_json_def getitem_def)
qed




subsection \<open>The fields of a client\<close>

text \<open>
  Claim C8. After a client was constructed, any sequence of calls (constructions of other
  clients among them) leaves its five fields as the constructor set them; and each
  single call other than a construction leaves every client of the store as it was.
  \<^verbatim>\<open>user\<close> and the two \<^verbatim>\<open>__repr__\<close> are functions of the state and return no state.
\<close>

theorem client_fields_unchanged:
  assumes "BitBucket_init u p k s v w = (r, w0)"
  shows "clients (fold perform calls w0) r =
           \<lparr>username = u, password = p, oauth_key = k, oauth_secret = s, verbose = v\<rparr> \<and>
         (\<forall>c e w1. (\<forall>u p k s v. c \<noteq> New u p k s v) \<longrightarrow>
            clients (perform (e, c) w1) = clients w1)"
proof -
  have "r < next_ref w0"
    and "clients w0 r =
           \<lparr>username = u, password = p, oauth_key = k, oauth_secret = s, verbose = v\<rparr>"
    using assms by (auto simp: BitBucket_init_def)
  then show ?thesis
    using fold_perform_keeps [of r w0 calls] perform_store by simp
qed

theorem client_fields_unchanged_witness:
  "clients (perform (stub_env, Emails (Client 0)) (client_world ''alice'' ''pw'' [] [] True)) =
     clients (client_world ''alice'' ''pw'' [] [] True) \<and>
   clients
     (fold perform
        [(stub_env, Emails (Client 0)), (stub_env, New ''bob'' ''pw2'' [] [] False),
         (stub_env, Repositories (user 0 (Some ''alice''))),
         (stub_env, Create_repo (Client 1) [(''name'', ''r1'')])]
        (client_world ''alice'' ''pw'' [] [] True)) 0 =
     \<lparr>username = ''alice'', password = ''pw'', oauth_key = [], oauth_secret = [], verbose = True\<rparr>"
proof -
  let ?w = "client_world ''alice'' ''pw'' [] [] True"
  have i: "BitBucket_init ''alice'' ''pw'' [] [] True world0 = (0, ?w)"
    by (simp add: client_world_def init_world0)
  note t = client_fields_unchanged [OF i]
  have n: "\<forall>u p k s v. Emails (Client 0) \<noteq> New u p k s v"
    by simp
  have "clients (perform (stub_env, Emails (Client 0)) ?w) = clients ?w"
    using t [THEN conjunct2] n by blast
  then show ?thesis
    using t [THEN conjunct1,
        of "[(stub_env, Emails (Client 0)), (stub_env, New ''bob'' ''pw2'' [] [] False),
         (stub_env, Repositories (user 0 (Some ''alice''))),
         (stub_env, Create_repo (Client 1) [(''name'', ''r1'')])]"]
    by simp
qed

text \<open>
  Claim C9. The text that \<^verbatim>\<open>__repr__\<close> returns is \<^verbatim>\<open><BitBucket API (auth: username)>\<close> when
  the username and the password are both non-empty and \<^verbatim>\<open><BitBucket API>\<close> otherwise; two
  clients that differ only in their non-empty passwords have the same text.
\<close>

theorem repr_shows_username_only:
  assumes "c = clients w self"
  shows "BitBucket_repr self w =
           (if username c \<noteq> [] \<and> password c \<noteq> []
            then ''<BitBucket API (auth: '' @ username c @ '')>'' else ''<BitBucket API>'') \<and>
         (\<forall>w' p'. password c \<noteq> [] \<and> p' \<noteq> [] \<and> clients w' self = c\<lparr>password := p'\<rparr> \<longrightarrow>
               BitBucket_repr self w' = BitBucket_repr self w)"
  using assms by (simp add: BitBucket_repr_def all_str2 Let_def)

theorem repr_shows_username_only_witness:
  "BitBucket_repr 0 (client_world ''alice'' ''pw'' [] [] False) = ''<BitBucket API (auth: alice)>'' \<and>
   BitBucket_repr 0 (client_world ''alice'' ''other'' [] [] False) =
     BitBucket_repr 0 (client_world ''alice'' ''pw'' [] [] False) \<and>
   BitBucket_repr 0 (client_world ''alice'' [] [] [] False) = ''<BitBucket API>''"
  using
    repr_shows_username_only [where c = "clients (client_world ''alice'' ''pw'' [] [] False) 0"
      and w = "client_world ''alice'' ''pw'' [] [] False" and self = 0]
    repr_shows_username_only [where c = "clients (client_world ''alice'' [] [] [] False) 0"
      and w = "client_world ''alice'' [] [] [] False" and self = 0]
  by simp

subsection \<open>Timestamps\<close>

lemma of_char_digit_char: "(of_char (digit_char n) :: nat) = 48 + n mod 10"
  by (simp add: digit_char_def)

lemma isdigit_digit_char: "isdigit (digit_char n)"
  by (simp add: isdigit_def of_char_digit_char)

lemma not_isspace_digit_char: "\<not> isspace (digit_char n)"
  by (simp add: isspace_def of_char_digit_char)

lemma between_digit_char:
  "between lo hi (digit_char n) \<longleftrightarrow>
     (of_char lo :: nat) \<le> 48 + n mod 10 \<and> 48 + n mod 10 \<le> (of_char hi :: nat)"
  by (simp add: between_def of_char_digit_char)

lemma char_eq_digit_char: "c = digit_char n \<longleftrightarrow> (of_char c :: nat) = 48 + n mod 10"
proof
  assume "c = digit_char n"
  then show "(of_char c :: nat) = 48 + n mod 10" by (simp add: of_char_digit_char)
next
  assume "(of_char c :: nat) = 48 + n mod 10"
  then have "(of_char c :: nat) = of_char (digit_char n)" by (simp add: of_char_digit_char)
  then show "c = digit_char n" by simp
qed

lemma digit_char_eq_char: "digit_char n = c \<longleftrightarrow> (of_char c :: nat) = 48 + n mod 10"
  using char_eq_digit_char [of c n] by auto

lemma re_Y_pad4: "re_Y (pad4 y @ r) = [(pad4 y, r)]"
  by (simp add: re_Y_def pad4_def isdigit_digit_char)

lemma re_m_pad2:
  assumes "1 \<le> m" "m \<le> 12"
  shows "re_m (pad2 m @ r) =
           (pad2 m, r) # (if 10 \<le> m then [([digit_char (m div 10)], digit_char m # r)] else [])"
proof (cases "m < 10")
  case True
  then have "m div 10 = 0" "m mod 10 = m" by simp_all
  then show ?thesis
    using assms True
    by (simp add: re_m_def pad2_def between_digit_char char_eq_digit_char)
next
  case False
  then have "m div 10 = 1" "m mod 10 \<le> 2" using assms by arith+
  then show ?thesis
    using assms False
    by (simp add: re_m_def pad2_def between_digit_char char_eq_digit_char)
qed

lemma re_d_pad2:
  assumes "1 \<le> d" "d \<le> 31"
  shows "re_d (pad2 d @ r) =
           (pad2 d, r) # (if 10 \<le> d then [([digit_char (d div 10)], digit_char d # r)] else [])"
proof -
  consider "d < 10" | "10 \<le> d" "d < 20" | "20 \<le> d" "d < 30" | "30 \<le> d"
    by linarith
  then show ?thesis
  proof cases
    case 1
    then have "d div 10 = 0" "d mod 10 = d" by simp_all
    then show ?thesis
      using assms 1 by (simp add: re_d_def pad2_def between_digit_char char_eq_digit_char
          isdigit_digit_char)
  next
    case 2
    then have "d div 10 = 1" by arith
    then show ?thesis
      using assms 2 by (simp add: re_d_def pad2_def between_digit_char char_eq_digit_char
          isdigit_digit_char)
  next
    case 3
    then have "d div 10 = 2" by arith
    then show ?thesis
      using assms 3 by (simp add: re_d_def pad2_def between_digit_char char_eq_digit_char
          isdigit_digit_char)
  next
    case 4
    then have "d div 10 = 3" "d mod 10 \<le> 1" using assms by arith+
    then show ?thesis
      using assms 4 by (simp add: re_d_def pad2_def between_digit_char char_eq_digit_char
          isdigit_digit_char)
  qed
qed

lemma re_H_pad2:
  assumes "h \<le> 23"
  shows "re_H (pad2 h @ r) = [(pad2 h, r), ([digit_char (h div 10)], digit_char h # r)]"
proof -
  consider "h < 10" | "10 \<le> h" "h < 20" | "20 \<le> h"
    by linarith
  then show ?thesis
  proof cases
    case 1
    then have "h div 10 = 0" by simp
    then show ?thesis
      by (simp add: re_H_def pad2_def between_digit_char char_eq_digit_char isdigit_digit_char)
  next
    case 2
    then have "h div 10 = 1" by arith
    then show ?thesis
      by (simp add: re_H_def pad2_def between_digit_char char_eq_digit_char isdigit_digit_char)
  next
    case 3
    then have "h div 10 = 2" "h mod 10 \<le> 3" using assms by arith+
    then show ?thesis
      by (simp add: re_H_def pad2_def between_digit_char char_eq_digit_char isdigit_digit_char)
  qed
qed

lemma re_M_pad2:
  assumes "n \<le> 59"
  shows "re_M (pad2 n @ r) = [(pad2 n, r), ([digit_char (n div 10)], digit_char n # r)]"
proof -
  have "n div 10 mod 10 \<le> 5" using assms by arith
  then show ?thesis
    by (simp add: re_M_def pad2_def between_digit_char isdigit_digit_char)
qed

lemma re_S_pad2:
  assumes "n \<le> 59"
  shows "re_S (pad2 n @ r) = [(pad2 n, r), ([digit_char (n div 10)], digit_char n # r)]"
proof -
  have "n div 10 mod 10 \<le> 5" using assms by arith
  then show ?thesis
    by (simp add: re_S_def pad2_def between_digit_char char_eq_digit_char isdigit_digit_char)
qed

lemma digit_char_neq:
  "digit_char n \<noteq> CHR ''-''" "digit_char n \<noteq> CHR '':''" "digit_char n \<noteq> CHR '' ''"
  "digit_char n \<noteq> CHR ''+''"
  by (simp_all add: digit_char_eq_char)

lemma isspace_blank: "isspace CHR '' ''"
  by (simp add: isspace_def)

lemma re_spaces_digit_char: "re_spaces (digit_char n # r) = []"
  by (simp add: re_spaces_def not_isspace_digit_char)

lemma re_spaces_one: "re_spaces (CHR '' '' # digit_char n # r) = [digit_char n # r]"
  by (simp add: re_spaces_def not_isspace_digit_char isspace_blank)

lemma format_regex_timestamp:
  assumes "1 \<le> m" "m \<le> 12" "1 \<le> d" "d \<le> 31" "h \<le> 23" "mi \<le> 59" "s \<le> 59"
  shows "format_regex (timestamp y m d h mi s) =
           [((pad4 y, pad2 m, pad2 d, pad2 h, pad2 mi, pad2 s), []),
            ((pad4 y, pad2 m, pad2 d, pad2 h, pad2 mi, [digit_char (s div 10)]), [digit_char s])]"
proof -
  have S: "re_S (pad2 s) = [(pad2 s, []), ([digit_char (s div 10)], [digit_char s])]"
    using re_S_pad2 [OF assms(7), of "[]"] by simp
  have H: "re_H (digit_char (h div 10) # digit_char h # r) =
             [(pad2 h, r), ([digit_char (h div 10)], digit_char h # r)]" for r
    using re_H_pad2 [OF assms(5), of r] by (simp add: pad2_def)
  show ?thesis
    unfolding format_regex_def timestamp_def
    by (simp add: re_Y_pad4 re_m_pad2 [OF assms(1,2)] re_d_pad2 [OF assms(3,4)] H
          re_M_pad2 [OF assms(6)] S digit_char_neq re_spaces_digit_char re_spaces_one
          pad2_def [of h])
qed

lemma int_of_digit_char: "int (of_char (digit_char n)) - 48 = int (n mod 10)"
  by (simp add: of_char_digit_char)

lemma strip_pad2: "strip (pad2 n) = pad2 n"
  by (rule strip_no_space) (simp add: pad2_def not_isspace_digit_char)

lemma strip_pad4: "strip (pad4 n) = pad4 n"
  by (rule strip_no_space) (simp add: pad4_def not_isspace_digit_char)

lemma py_int_pad2: "n \<le> 99 \<Longrightarrow> py_int (pad2 n) = int n"
proof -
  assume a: "n \<le> 99"
  have "py_int (pad2 n) = 10 * int (n div 10 mod 10) + int (n mod 10)"
    unfolding py_int_def strip_pad2 by (simp add: pad2_def int_of_digit_char)
  also have "\<dots> = int (10 * (n div 10 mod 10) + n mod 10)" by simp
  also have "10 * (n div 10 mod 10) + n mod 10 = n"
  proof -
    have "n div 10 < 10" using a by simp
    then have "n div 10 mod 10 = n div 10" by simp
    then show ?thesis by simp
  qed
  finally show ?thesis .
qed

lemma digits4:
  fixes n :: nat
  assumes "n \<le> 9999"
  shows "10 * (10 * (10 * (n div 1000 mod 10) + n div 100 mod 10) + n div 10 mod 10) + n mod 10 = n"
proof -
  define a where "a = n div 10"
  define b where "b = a div 10"
  define c where "c = b div 10"
  have e100: "n div 100 = b" unfolding b_def a_def by (simp add: div_mult2_eq [symmetric])
  have e1000: "n div 1000 = c" unfolding c_def b_def a_def by (simp add: div_mult2_eq [symmetric])
  have "c < 10" using assms unfolding e1000 [symmetric] by simp
  then have c: "c mod 10 = c" by simp
  have 1: "10 * c + b mod 10 = b" unfolding c_def by simp
  have 2: "10 * b + a mod 10 = a" unfolding b_def by simp
  have 3: "10 * a + n mod 10 = n" unfolding a_def by simp
  show ?thesis
    unfolding e100 e1000 a_def [symmetric] c 1 2 3 ..
qed

lemma py_int_pad4: "n \<le> 9999 \<Longrightarrow> py_int (pad4 n) = int n"
proof -
  assume a: "n \<le> 9999"
  have "py_int (pad4 n) =
          10 * (10 * (10 * int (n div 1000 mod 10) + int (n div 100 mod 10)) +
                int (n div 10 mod 10)) + int (n mod 10)"
    unfolding py_int_def strip_pad4 by (simp add: pad4_def int_of_digit_char)
  also have "\<dots> = int (10 * (10 * (10 * (n div 1000 mod 10) + n div 100 mod 10) +
                n div 10 mod 10) + n mod 10)" by simp
  finally show ?thesis
    unfolding digits4 [OF a] .
qed

lemma timestamp_chars:
  "c \<in> set (timestamp y m d h mi s) \<Longrightarrow> c \<noteq> CHR ''+''"
proof -
  have "CHR ''+'' \<notin> set (timestamp y m d h mi s)"
    by (simp add: timestamp_def pad2_def pad4_def char_eq_digit_char)
  then show "c \<in> set (timestamp y m d h mi s) \<Longrightarrow> c \<noteq> CHR ''+''"
    by blast
qed

lemma timestamp_ends:
  "\<exists>a b mid. timestamp y m d h mi s = a # mid @ [b] \<and> \<not> isspace a \<and> \<not> isspace b"
  by (rule exI [of _ "digit_char (y div 1000)"], rule exI [of _ "digit_char s"])
     (simp add: timestamp_def pad2_def pad4_def not_isspace_digit_char)

lemma isspace_not_plus: "isspace c \<Longrightarrow> c \<noteq> CHR ''+''"
  by (auto simp: isspace_def)

lemma split_plus_0_timestamp:
  assumes "list_all isspace ws1" "list_all isspace ws2" "rest = [] \<or> (\<exists>t. rest = CHR ''+'' # t)"
  shows "split_plus_0 (ws1 @ timestamp y m d h mi s @ ws2 @ rest) =
           ws1 @ timestamp y m d h mi s @ ws2"
proof -
  have 1: "\<forall>c \<in> set (ws1 @ timestamp y m d h mi s @ ws2). c \<noteq> CHR ''+''"
    using assms(1,2) by (auto simp: list_all_iff dest: isspace_not_plus timestamp_chars)
  have 2: "takeWhile (\<lambda>c. c \<noteq> CHR ''+'') rest = []"
    using assms(3) by auto
  have "takeWhile (\<lambda>c. c \<noteq> CHR ''+'') ((ws1 @ timestamp y m d h mi s @ ws2) @ rest) =
          (ws1 @ timestamp y m d h mi s @ ws2) @ takeWhile (\<lambda>c. c \<noteq> CHR ''+'') rest"
    using 1 by (intro takeWhile_append2) blast
  then show ?thesis
    by (simp add: split_plus_0_def 2)
qed

lemma dropWhile_spaces:
  "list_all isspace ws \<Longrightarrow> \<not> isspace a \<Longrightarrow> dropWhile isspace (ws @ a # r) = a # r"
  by (induction ws) simp_all

lemma strip_timestamp:
  assumes "list_all isspace ws1" "list_all isspace ws2"
  shows "strip (ws1 @ timestamp y m d h mi s @ ws2) = timestamp y m d h mi s"
proof -
  obtain a b mid where t: "timestamp y m d h mi s = a # mid @ [b]"
    and a: "\<not> isspace a" and b: "\<not> isspace b"
    using timestamp_ends by blast
  have e: "ws1 @ timestamp y m d h mi s @ ws2 = ws1 @ a # (mid @ b # ws2)"
    by (simp add: t)
  have 1: "dropWhile isspace (ws1 @ a # (mid @ b # ws2)) = a # (mid @ b # ws2)"
    using assms(1) a by (rule dropWhile_spaces)
  have r: "rev (a # (mid @ b # ws2)) = rev ws2 @ b # (rev mid @ [a])"
    by simp
  have "list_all isspace (rev ws2)"
    using assms(2) by (simp add: list_all_iff)
  then have 2: "dropWhile isspace (rev ws2 @ b # (rev mid @ [a])) = b # (rev mid @ [a])"
    using b by (rule dropWhile_spaces)
  have "strip (ws1 @ timestamp y m d h mi s @ ws2) = rev (b # (rev mid @ [a]))"
    unfolding strip_def e 1 r 2 ..
  also have "\<dots> = timestamp y m d h mi s"
    by (simp add: t)
  finally show ?thesis .
qed

lemma days_in_month_le_31:
  assumes "1 \<le> m" "m \<le> 12"
  shows "days_in_month y m \<le> 31"
proof -
  have "m = 1 \<or> m = 2 \<or> m = 3 \<or> m = 4 \<or> m = 5 \<or> m = 6 \<or> m = 7 \<or> m = 8 \<or> m = 9 \<or>
        m = 10 \<or> m = 11 \<or> m = 12"
    using assms by arith
  then show ?thesis
    by (auto simp: days_in_month_def DAYS_IN_MONTH_def)
qed

lemma weekday_range: "0 \<le> weekday y m d \<and> weekday y m d \<le> 6"
  by (simp add: weekday_def)

lemma strptime_timestamp:
  assumes "1 \<le> y" "y \<le> 9999" "1 \<le> m" "m \<le> 12" "1 \<le> d"
    and "int d \<le> days_in_month (int y) (int m)" "h \<le> 23" "mi \<le> 59" "s \<le> 59"
  shows "strptime (timestamp y m d h mi s) =
           Inr [int y, int m, int d, int h, int mi, int s, weekday (int y) (int m) (int d),
                ymd2ord (int y) (int m) (int d) - ymd2ord (int y) 1 1 + 1, -1]"
proof -
  have d31: "d \<le> 31"
    using days_in_month_le_31 [of "int m" "int y"] assms(3,4,6) by simp
  have i: "py_int (pad4 y) = int y" "py_int (pad2 m) = int m" "py_int (pad2 d) = int d"
    "py_int (pad2 h) = int h" "py_int (pad2 mi) = int mi" "py_int (pad2 s) = int s"
    using assms(2,4,7,8,9) d31 by (simp_all add: py_int_pad4 py_int_pad2)
  have c1: "check_date_fields (int y) (int m) (int d) = Inr ()"
    using assms(1-6) by (simp add: check_date_fields_def)
  have c2: "check_date_fields (int y) 1 1 = Inr ()"
    using assms(1,2) by (simp add: check_date_fields_def days_in_month_def DAYS_IN_MONTH_def)
  show ?thesis
    unfolding strptime_def format_regex_timestamp [OF assms(3,4,5) d31 assms(7,8,9)]
    by (simp add: i c1 c2 Let_def)
qed

text \<open>
  Claim C10. A text that consists of a timestamp \<^verbatim>\<open>YYYY-MM-DD HH:MM:SS\<close> of a date of the
  calendar and a time of the day, with white space before and after it or none, and then
  nothing or a plus sign and any text: \<^verbatim>\<open>to_datetime\<close> drops what starts at the plus sign
  and the white space around the rest, and returns the \<^verbatim>\<open>datetime\<close> whose year, month, day,
  hour, minute and second are those of the timestamp and whose microsecond is the week day
  of the date, a number from 0 to 6: the seventh of the fields of the parsed time that
  are passed to the constructor by position.
\<close>

theorem to_datetime_timestamp:
  assumes "1 \<le> y" "y \<le> 9999" "1 \<le> m" "m \<le> 12" "1 \<le> d"
    and "int d \<le> days_in_month (int y) (int m)" "h \<le> 23" "mi \<le> 59" "s \<le> 59"
    and "list_all isspace ws1" "list_all isspace ws2"
    and "rest = [] \<or> (\<exists>t. rest = CHR ''+'' # t)"
  shows "to_datetime (ws1 @ timestamp y m d h mi s @ ws2 @ rest) =
           Inr \<lparr>year = int y, month = int m, day = int d, hour = int h, minute = int mi,
                second = int s, microsecond = weekday (int y) (int m) (int d)\<rparr> \<and>
         0 \<le> weekday (int y) (int m) (int d) \<and> weekday (int y) (int m) (int d) \<le> 6"
proof -
  have w: "0 \<le> weekday (int y) (int m) (int d)" "weekday (int y) (int m) (int d) \<le> 6"
    using weekday_range [of "int y" "int m" "int d"] by simp_all
  have c1: "check_date_fields (int y) (int m) (int d) = Inr ()"
    using assms(1-6) by (simp add: check_date_fields_def)
  have c2: "check_time_fields (int h) (int mi) (int s) (weekday (int y) (int m) (int d)) = Inr ()"
    using assms(7,8,9) w by (simp add: check_time_fields_def)
  have "to_datetime (ws1 @ timestamp y m d h mi s @ ws2 @ rest) =
          datetime_call [int y, int m, int d, int h, int mi, int s,
                         weekday (int y) (int m) (int d)]"
    unfolding to_datetime_def split_plus_0_timestamp [OF assms(10,11,12)]
      strip_timestamp [OF assms(10,11)] Let_def strptime_timestamp [OF assms(1-9)]
    by simp
  then show ?thesis
    using w by (simp add: datetime_new_def c1 c2)
qed

lemma timestamp_example: "timestamp 2012 3 4 5 6 7 = ''2012-03-04 05:06:07''"
  by code_simp

lemma weekday_example: "weekday 2012 3 4 = 6"
  by (simp add: weekday_def ymd2ord_def days_before_year_def days_before_month_def
        DAYS_BEFORE_MONTH_def is_leap_def)

theorem to_datetime_timestamp_witness:
  "to_datetime ''2012-03-04 05:06:07+00:00'' =
     Inr \<lparr>year = 2012, month = 3, day = 4, hour = 5, minute = 6, second = 7, microsecond = 6\<rparr> \<and>
   to_datetime '' 2012-03-04 05:06:07 '' =
     Inr \<lparr>year = 2012, month = 3, day = 4, hour = 5, minute = 6, second = 7, microsecond = 6\<rparr>"
proof -
  have dm: "int 4 \<le> days_in_month (int 2012) (int 3)"
    by (simp add: days_in_month_def DAYS_IN_MONTH_def)
  have sp: "list_all isspace []" "list_all isspace '' ''"
    by (simp_all add: isspace_def)
  have r1: "''+00:00'' = [] \<or> (\<exists>t. ''+00:00'' = CHR ''+'' # t)"
    by simp
  have r2: "([] :: string) = [] \<or> (\<exists>t. [] = CHR ''+'' # t)"
    by simp
  have a: "(1 :: nat) \<le> 2012" "(2012 :: nat) \<le> 9999" "(1 :: nat) \<le> 3" "(3 :: nat) \<le> 12"
    "(1 :: nat) \<le> 4" "(5 :: nat) \<le> 23" "(6 :: nat) \<le> 59" "(7 :: nat) \<le> 59"
    by simp_all
  show ?thesis
    using to_datetime_timestamp [OF a(1-5) dm a(6-8) sp(1) sp(1) r1]
      to_datetime_timestamp [OF a(1-5) dm a(6-8) sp(2) sp(2) r2]
    by (simp add: timestamp_example weekday_example)
qed

text \<open>
  The seconds 60 and 61 are seconds for \<^verbatim>\<open>strptime\<close> and not for \<^verbatim>\<open>datetime\<close>: such a text
  is not the text of a time of the day, and the call raises.
\<close>

lemma to_datetime_leap_second:
  "to_datetime ''2016-12-31 23:59:60'' = Inl (ValueError ''second'')"
  by code_simp

end
